theory Spec2Isabelle
  imports Complex_Main "HOL-Library.Sublist"
begin

section \<open>Strings as the program sees them\<close>

text \<open>
  A document is a \<^typ>\<open>string\<close>: a list of code units, one \<^typ>\<open>char\<close> per unit, so that
  \<open>length\<close> is the program's \<open>.length\<close>.  Code units are restricted to the range
  \<open>0..255\<close>; the white space of \<open>String.prototype.trim\<close> and of the regular expression
  class \<open>\s\<close> that falls in this range is TAB, LF, VT, FF, CR, SPACE and NBSP.
  Numbers that the program uses as sizes and offsets are integers (\<^typ>\<open>int\<close>).
\<close>

definition is_ws :: "char \<Rightarrow> bool" where
  "is_ws c = (c \<in> set [CHR 0x09, CHR 0x0A, CHR 0x0B, CHR 0x0C, CHR 0x0D, CHR 0x20, CHR 0xA0])"

definition trim :: "string \<Rightarrow> string" where
  "trim s = rev (dropWhile is_ws (rev (dropWhile is_ws s)))"

text \<open>\<open>text.indexOf(sub, from)\<close> for \<open>from \<ge> 0\<close>: the first position \<open>k \<ge> from\<close> at which
  \<open>sub\<close> occurs, or \<open>-1\<close>.\<close>

fun index_at :: "string \<Rightarrow> string \<Rightarrow> nat \<Rightarrow> nat option" where
  "index_at sub [] k = (if sub = [] then Some k else None)"
| "index_at sub (c # cs) k = (if prefix sub (c # cs) then Some k else index_at sub cs (Suc k))"

definition indexOf :: "string \<Rightarrow> string \<Rightarrow> nat \<Rightarrow> int" where
  "indexOf txt sub from =
     (case index_at sub (drop from txt) (min from (length txt)) of
        Some k \<Rightarrow> int k
      | None \<Rightarrow> - 1)"

text \<open>\<open>s.slice(a)\<close> and \<open>s.slice(a, b)\<close> with integer arguments; a negative argument
  counts from the end of the string.\<close>

definition slice_pos :: "nat \<Rightarrow> int \<Rightarrow> nat" where
  "slice_pos len a = (if a < 0 then nat (max (int len + a) 0) else min (nat a) len)"

definition slice_from :: "string \<Rightarrow> int \<Rightarrow> string" where
  "slice_from s a = drop (slice_pos (length s) a) s"

definition slice :: "string \<Rightarrow> int \<Rightarrow> int \<Rightarrow> string" where
  "slice s a b =
     (let from = slice_pos (length s) a; to = slice_pos (length s) b
      in take (to - from) (drop from s))"

subsection \<open>Splitting on the two regular expressions of the chunker\<close>

text \<open>
  \<open>PARAGRAPH_SPLIT = /\n\s*\n/\<close>.  A match starts at a line feed; \<open>\s*\<close> is greedy and
  backtracks, so the match ends at the last line feed of the white-space run that follows.
  \<open>para_sep\<close> returns what is left of the input after a match at its head.
\<close>

fun after_last_lf :: "string \<Rightarrow> string option" where
  "after_last_lf [] = None"
| "after_last_lf (c # cs) =
     (if is_ws c then
        (case after_last_lf cs of
           Some r \<Rightarrow> Some r
         | None \<Rightarrow> if c = CHR 0x0A then Some cs else None)
      else None)"

definition para_sep :: "string \<Rightarrow> string option" where
  "para_sep s = (case s of [] \<Rightarrow> None | c # cs \<Rightarrow> if c = CHR 0x0A then after_last_lf cs else None)"

lemma after_last_lf_length: "after_last_lf s = Some r \<Longrightarrow> length r < length s"
proof (induction s arbitrary: r)
  case Nil
  then show ?case by simp
next
  case (Cons c cs)
  show ?case
  proof (cases "after_last_lf cs")
    case None
    with Cons.prems show ?thesis by (simp split: if_splits)
  next
    case (Some r')
    with Cons.prems have "r = r'" by (simp split: if_splits)
    with Cons.IH [OF Some] show ?thesis by simp
  qed
qed

lemma para_sep_length: "para_sep s = Some r \<Longrightarrow> length r < length s"
  by (auto simp: para_sep_def split: list.splits if_splits dest: after_last_lf_length)

text \<open>\<open>text.split(PARAGRAPH_SPLIT)\<close>: \<open>cur\<close> is the piece being read, reversed.\<close>

function split_para_from :: "string \<Rightarrow> string \<Rightarrow> string list" where
  "split_para_from cur [] = [rev cur]"
| "split_para_from cur (c # cs) =
     (case para_sep (c # cs) of
        Some r \<Rightarrow> rev cur # split_para_from [] r
      | None \<Rightarrow> split_para_from (c # cur) cs)"
  by pat_completeness auto
termination
  by (relation "measure (\<lambda>(cur, s). length s)") (auto dest: para_sep_length)

definition split_paragraphs :: "string \<Rightarrow> string list" where
  "split_paragraphs s = split_para_from [] s"

text \<open>
  \<open>SENTENCE_SPLIT = /(?<=[.!?])\s+/\<close>: a maximal white-space run that directly follows
  one of \<open>.\<close>, \<open>!\<close>, \<open>?\<close>.  \<open>prev\<close> is the code unit before the head of the input.
\<close>

definition is_terminator :: "char \<Rightarrow> bool" where
  "is_terminator c = (c = CHR ''.'' \<or> c = CHR ''!'' \<or> c = CHR ''?'')"

function split_sent_from :: "string \<Rightarrow> char option \<Rightarrow> string \<Rightarrow> string list" where
  "split_sent_from cur prev [] = [rev cur]"
| "split_sent_from cur prev (c # cs) =
     (if is_ws c \<and> (case prev of Some p \<Rightarrow> is_terminator p | None \<Rightarrow> False)
      then rev cur # split_sent_from [] (Some (last (c # takeWhile is_ws cs))) (dropWhile is_ws cs)
      else split_sent_from (c # cur) (Some c) cs)"
  by pat_completeness auto
termination
  by (relation "measure (\<lambda>(cur, prev, s). length s)")
     (auto simp: less_Suc_eq_le length_dropWhile_le)

definition split_sentences :: "string \<Rightarrow> string list" where
  "split_sentences s = split_sent_from [] None s"

text \<open>\<open>text.split(/\s+/)\<close>: the pieces between maximal white-space runs.\<close>

function split_ws_from :: "string \<Rightarrow> string \<Rightarrow> string list" where
  "split_ws_from cur [] = [rev cur]"
| "split_ws_from cur (c # cs) =
     (if is_ws c then rev cur # split_ws_from [] (dropWhile is_ws cs)
      else split_ws_from (c # cur) cs)"
  by pat_completeness auto
termination
  by (relation "measure (\<lambda>(cur, s). length s)")
     (auto simp: less_Suc_eq_le length_dropWhile_le)

definition split_whitespace :: "string \<Rightarrow> string list" where
  "split_whitespace s = split_ws_from [] s"

section \<open>The chunker\<close>

record ChunkOptions =
  maxChunkSize :: "int option"
  overlap :: "int option"

text \<open>A chunk; the three structural fields are set only by hierarchy-aware chunking.\<close>

record Chunk =
  c_index :: nat
  c_text :: string
  c_start :: int
  c_end :: int
  c_hash :: string
  c_sectionTitle :: "string option"
  c_sectionPath :: "string option"
  c_contextPrefix :: "string option"

text \<open>The inner loop of \<open>splitIntoSegments\<close> over the sentences of an oversized paragraph;
  \<open>current\<close> is the running buffer, the result is what the loop and the final flush push.\<close>

fun pack_sentences :: "int \<Rightarrow> string \<Rightarrow> string list \<Rightarrow> string list" where
  "pack_sentences maxSize current [] = (if length current > 0 then [current] else [])"
| "pack_sentences maxSize current (sentence # rest) =
     (let trimmed = trim sentence in
      if int (length current) + int (length trimmed) + 1 > maxSize \<and> length current > 0
      then current # pack_sentences maxSize trimmed rest
      else pack_sentences maxSize
             (if length current > 0 then current @ '' '' @ trimmed else trimmed) rest)"

definition raw_segments_of :: "int \<Rightarrow> string \<Rightarrow> string list" where
  "raw_segments_of maxSize para =
     (if int (length para) \<le> maxSize then [trim para]
      else pack_sentences maxSize []
             (filter (\<lambda>s. length (trim s) > 0) (split_sentences para)))"

text \<open>Step 3 of \<open>splitIntoSegments\<close>: merging small consecutive segments.\<close>

fun merge_segments :: "int \<Rightarrow> string \<Rightarrow> string list \<Rightarrow> string list" where
  "merge_segments maxSize buffer [] = (if length buffer > 0 then [buffer] else [])"
| "merge_segments maxSize buffer (seg # rest) =
     (if int (length buffer) + int (length seg) + 2 > maxSize \<and> length buffer > 0
      then buffer # merge_segments maxSize seg rest
      else merge_segments maxSize
             (if length buffer > 0 then buffer @ [CHR 0x0A, CHR 0x0A] @ seg else seg) rest)"

definition splitIntoSegments :: "string \<Rightarrow> int \<Rightarrow> string list" where
  "splitIntoSegments txt maxSize =
     (let paragraphs = filter (\<lambda>p. length (trim p) > 0) (split_paragraphs txt);
          rawSegments = concat (map (raw_segments_of maxSize) paragraphs)
      in merge_segments maxSize [] rawSegments)"

text \<open>\<open>applyOverlap\<close>.  \<open>cleanOverlap\<close> is the prefix computed from the previous segment.\<close>

definition cleanOverlap :: "int \<Rightarrow> string \<Rightarrow> string" where
  "cleanOverlap ov prev =
     (let overlapText = slice_from prev (- ov);
          firstSpace = indexOf overlapText '' '' 0
      in if firstSpace > 0 then slice_from overlapText (firstSpace + 1) else overlapText)"

fun overlap_loop :: "int \<Rightarrow> string \<Rightarrow> string list \<Rightarrow> string list" where
  "overlap_loop ov prev [] = []"
| "overlap_loop ov prev (seg # rest) =
     (cleanOverlap ov prev @ '' '' @ seg) # overlap_loop ov seg rest"

definition applyOverlap :: "string list \<Rightarrow> int \<Rightarrow> string list" where
  "applyOverlap segments ov =
     (if ov \<le> 0 \<or> length segments \<le> 1 then segments
      else hd segments # overlap_loop ov (hd segments) (tl segments))"

text \<open>
  The loop of \<open>chunkText\<close> that assigns positions: \<open>i\<close> is the chunk index, \<open>searchFrom\<close>
  the cursor, and the list pairs \<open>overlapped[i]\<close> with \<open>segments[i]\<close>.  The digest
  \<open>sha256\<close> is the platform's; it is a parameter.
\<close>

fun position_loop ::
  "(string \<Rightarrow> string) \<Rightarrow> string \<Rightarrow> nat \<Rightarrow> nat \<Rightarrow> (string \<times> string) list \<Rightarrow> Chunk list" where
  "position_loop sha256 txt i searchFrom [] = []"
| "position_loop sha256 txt i searchFrom ((chunkText, canonical) # rest) =
     (let start = indexOf txt canonical searchFrom;
          end' = (if start \<ge> 0 then start + int (length canonical) else int searchFrom);
          searchFrom' = (if start \<ge> 0 then nat start + 1 else searchFrom)
      in \<lparr> c_index = i, c_text = chunkText, c_start = max start 0, c_end = end',
           c_hash = sha256 chunkText, c_sectionTitle = None, c_sectionPath = None,
           c_contextPrefix = None \<rparr>
         # position_loop sha256 txt (Suc i) searchFrom' rest)"

definition chunkText :: "(string \<Rightarrow> string) \<Rightarrow> string \<Rightarrow> ChunkOptions \<Rightarrow> Chunk list" where
  "chunkText sha256 txt options =
     (let maxChunkSize = (case maxChunkSize options of Some m \<Rightarrow> m | None \<Rightarrow> 1000);
          overlap = (case overlap options of Some v \<Rightarrow> v | None \<Rightarrow> 200);
          segments = splitIntoSegments txt maxChunkSize;
          overlapped = applyOverlap segments overlap
      in position_loop sha256 txt 0 0 (zip overlapped segments))"

record TextStats =
  totalCharacters :: nat
  totalWords :: nat
  totalParagraphs :: nat

definition analyzeText :: "string \<Rightarrow> TextStats" where
  "analyzeText txt =
     \<lparr> totalCharacters = length txt,
       totalWords = length (filter (\<lambda>w. length w > 0) (split_whitespace txt)),
       totalParagraphs = length (filter (\<lambda>p. length (trim p) > 0) (split_paragraphs txt)) \<rparr>"

definition hashDocument :: "(string \<Rightarrow> string) \<Rightarrow> string \<Rightarrow> string" where
  "hashDocument sha256 txt = sha256 txt"

section \<open>The hierarchy extractor\<close>

text \<open>
  The numbers of the similarity computation are IEEE doubles.  Their arithmetic belongs to
  the platform and is a parameter: a type \<open>'n\<close> of numbers with the operations the program
  uses.  \<open>n_of_nat\<close> is an integer literal or a length as a number, \<open>n_half\<close> the literal
  \<open>0.5\<close>, \<open>n_nan\<close> what arithmetic makes of \<open>undefined\<close>, \<open>n_eq\<close> the operator \<open>===\<close>.
\<close>

record 'n arithmetic =
  n_of_nat :: "nat \<Rightarrow> 'n"
  n_half :: 'n
  n_nan :: 'n
  n_add :: "'n \<Rightarrow> 'n \<Rightarrow> 'n"
  n_sub :: "'n \<Rightarrow> 'n \<Rightarrow> 'n"
  n_mul :: "'n \<Rightarrow> 'n \<Rightarrow> 'n"
  n_div :: "'n \<Rightarrow> 'n \<Rightarrow> 'n"
  n_pow :: "'n \<Rightarrow> 'n \<Rightarrow> 'n"
  n_sqrt :: "'n \<Rightarrow> 'n"
  n_less :: "'n \<Rightarrow> 'n \<Rightarrow> bool"
  n_eq :: "'n \<Rightarrow> 'n \<Rightarrow> bool"

record 'n HierarchyOptions =
  similarityThreshold :: "'n option"
  minSectionSize :: "int option"
  docSummaryMaxSentences :: "int option"
  sectionSummaryMaxSentences :: "int option"
  maxOutlineDepth :: "int option"

text \<open>\<open>resolveOptions\<close>: a field that is absent takes the value of \<open>DEFAULTS\<close>.\<close>

record 'n ResolvedOptions =
  r_similarityThreshold :: 'n
  r_minSectionSize :: int
  r_docSummaryMaxSentences :: int
  r_sectionSummaryMaxSentences :: int
  r_maxOutlineDepth :: int

definition resolveOptions :: "'n arithmetic \<Rightarrow> 'n HierarchyOptions \<Rightarrow> 'n ResolvedOptions" where
  "resolveOptions ar opts =
     \<lparr> r_similarityThreshold =
         (case similarityThreshold opts of Some v \<Rightarrow> v | None \<Rightarrow> n_half ar),
       r_minSectionSize = (case minSectionSize opts of Some v \<Rightarrow> v | None \<Rightarrow> 200),
       r_docSummaryMaxSentences = (case docSummaryMaxSentences opts of Some v \<Rightarrow> v | None \<Rightarrow> 3),
       r_sectionSummaryMaxSentences =
         (case sectionSummaryMaxSentences opts of Some v \<Rightarrow> v | None \<Rightarrow> 1),
       r_maxOutlineDepth = (case maxOutlineDepth opts of Some v \<Rightarrow> v | None \<Rightarrow> 6) \<rparr>"

datatype HeadingNode =
  HeadingNode (level: nat) (title: string) (startOffset: int) (endOffset: int)
    (children: "HeadingNode list")

record SectionSummary =
  s_title :: string
  s_summary :: string
  s_startOffset :: int
  s_endOffset :: int

datatype Strategy = Heading | EmbeddingSimilarity | Positional

record HierarchyMap =
  headings :: "HeadingNode list"
  outline :: string
  documentSummary :: string
  sectionSummaries :: "SectionSummary list"
  strategy :: Strategy

record FlatHeading =
  f_level :: nat
  f_title :: string
  f_offset :: int

subsection \<open>Heading extraction\<close>

text \<open>\<open>s.split(sep)\<close> with a one-character separator, and \<open>parts.join(sep)\<close>.\<close>

fun split_on_from :: "char \<Rightarrow> string \<Rightarrow> string \<Rightarrow> string list" where
  "split_on_from sep cur [] = [rev cur]"
| "split_on_from sep cur (c # cs) =
     (if c = sep then rev cur # split_on_from sep [] cs else split_on_from sep (c # cur) cs)"

definition split_on :: "char \<Rightarrow> string \<Rightarrow> string list" where
  "split_on sep s = split_on_from sep [] s"

fun join :: "string \<Rightarrow> string list \<Rightarrow> string" where
  "join sep [] = []"
| "join sep [x] = x"
| "join sep (x # y # ys) = x @ sep @ join sep (y # ys)"

text \<open>
  The tail \<open>\s+(.+)$\<close> shared by the Markdown and the numbered pattern, matched at the head
  of the input; the result is what the group \<open>(.+)\<close> captures.  \<open>.\<close> does not match a line
  terminator, and \<open>\s+\<close> is greedy but gives characters back when the rest would be empty.
\<close>

definition is_line_terminator :: "char \<Rightarrow> bool" where
  "is_line_terminator c = (c = CHR 0x0A \<or> c = CHR 0x0D)"

definition ws_then_rest :: "string \<Rightarrow> string option" where
  "ws_then_rest s =
     (let w = takeWhile is_ws s; r = dropWhile is_ws s in
      if w = [] \<or> (\<exists>c \<in> set r. is_line_terminator c) then None
      else if r \<noteq> [] then Some r
      else if length w \<ge> 2 \<and> \<not> is_line_terminator (last w) then Some [last w]
      else None)"

text \<open>\<open>/^(#{1,6})\s+(.+)$/\<close>: the number of leading \<open>#\<close> and the second group.\<close>

definition mdMatch :: "string \<Rightarrow> (nat \<times> string) option" where
  "mdMatch t =
     (let hashes = takeWhile (\<lambda>c. c = CHR ''#'') t in
      if 1 \<le> length hashes \<and> length hashes \<le> 6 then
        (case ws_then_rest (dropWhile (\<lambda>c. c = CHR ''#'') t) of
           Some g \<Rightarrow> Some (length hashes, g)
         | None \<Rightarrow> None)
      else None)"

text \<open>
  \<open>/^(\d+(?:\.\d+)*)[.)]\s+(.+)$/\<close>.  \<open>dot_groups\<close> reads the greedy repetition
  \<open>(?:\.\d+)*\<close> and returns the number of groups read and the rest of the input; giving a
  group back cannot lead to a match, since the next character is then a digit.
  The result of \<open>numMatch\<close> is the depth \<open>numMatch[1].split(".").length\<close> and the second group.
\<close>

definition in_range :: "char \<Rightarrow> char \<Rightarrow> char \<Rightarrow> bool" where
  "in_range c lo hi = ((of_char lo :: nat) \<le> of_char c \<and> (of_char c :: nat) \<le> of_char hi)"

definition is_digit :: "char \<Rightarrow> bool" where
  "is_digit c = in_range c CHR ''0'' CHR ''9''"

function dot_groups :: "string \<Rightarrow> nat \<times> string" where
  "dot_groups s =
     (case s of
        [] \<Rightarrow> (0, s)
      | c # r \<Rightarrow>
          if c = CHR ''.'' \<and> takeWhile is_digit r \<noteq> []
          then (case dot_groups (dropWhile is_digit r) of (n, rest) \<Rightarrow> (Suc n, rest))
          else (0, s))"
  by pat_completeness auto
termination
  by (relation "measure length") (auto simp: less_Suc_eq_le length_dropWhile_le)

definition numMatch :: "string \<Rightarrow> (nat \<times> string) option" where
  "numMatch t =
     (if takeWhile is_digit t = [] then None
      else
        (case dot_groups (dropWhile is_digit t) of
           (n, rest) \<Rightarrow>
             (case rest of
                [] \<Rightarrow> None
              | c # r \<Rightarrow>
                  if c = CHR ''.'' \<or> c = CHR '')'' then
                    (case ws_then_rest r of Some g \<Rightarrow> Some (Suc n, g) | None \<Rightarrow> None)
                  else None)))"

text \<open>
  Case mapping on the code units \<open>0..255\<close>.  \<open>changes_in_upper c\<close> says that
  \<open>toUpperCase\<close> changes \<open>c\<close> (the letters \<open>a-z\<close>, the micro sign and the lower-case
  letters from \<open>0xDF\<close>, except the division sign).  \<open>titleCase\<close> is applied only to lines that
  \<open>toUpperCase\<close> leaves unchanged, so after \<open>toLowerCase\<close> the first character of a word has
  its upper-case form in the range; \<open>upper_char\<close> leaves the other code units alone.
\<close>

definition changes_in_upper :: "char \<Rightarrow> bool" where
  "changes_in_upper c =
     (in_range c CHR ''a'' CHR ''z'' \<or> c = CHR 0xB5 \<or> (in_range c CHR 0xDF CHR 0xFF \<and> c \<noteq> CHR 0xF7))"

definition lower_char :: "char \<Rightarrow> char" where
  "lower_char c =
     (if in_range c CHR ''A'' CHR ''Z'' \<or> (in_range c CHR 0xC0 CHR 0xDE \<and> c \<noteq> CHR 0xD7)
      then char_of (of_char c + (32 :: nat)) else c)"

definition upper_char :: "char \<Rightarrow> char" where
  "upper_char c =
     (if in_range c CHR ''a'' CHR ''z'' \<or> (in_range c CHR 0xE0 CHR 0xFE \<and> c \<noteq> CHR 0xF7)
      then char_of (of_char c - (32 :: nat)) else c)"

definition titleCase :: "string \<Rightarrow> string" where
  "titleCase str =
     join '' '' (map (\<lambda>w. (case w of [] \<Rightarrow> [] | c # cs \<Rightarrow> upper_char c # cs))
                  (split_on CHR '' '' (map lower_char str)))"

text \<open>The test of the ALL-CAPS recognizer on the trimmed line.\<close>

definition isAllCapsHeading :: "string \<Rightarrow> bool" where
  "isAllCapsHeading trimmed =
     (length trimmed \<ge> 5
      \<and> (\<forall>c \<in> set trimmed. \<not> changes_in_upper c)
      \<and> (case trimmed of [] \<Rightarrow> False | c # cs \<Rightarrow> in_range c CHR ''A'' CHR ''Z'')
      \<and> length (split_whitespace trimmed) \<ge> 3
      \<and> \<not> (case trimmed of [] \<Rightarrow> False | c # cs \<Rightarrow> c \<in> set ''#-*>''))"

text \<open>The three recognizers, in the order of the source; the first that applies wins.\<close>

definition recognize :: "string \<Rightarrow> (nat \<times> string) option" where
  "recognize trimmed =
     (case mdMatch trimmed of
        Some (n, g) \<Rightarrow> Some (n, trim g)
      | None \<Rightarrow>
          if isAllCapsHeading trimmed then Some (1, titleCase trimmed)
          else
            (case numMatch trimmed of
               Some (depth, g) \<Rightarrow> Some (min depth 6, trim g)
             | None \<Rightarrow> None))"

fun headings_loop :: "int \<Rightarrow> string list \<Rightarrow> FlatHeading list" where
  "headings_loop offs [] = []"
| "headings_loop offs (line # rest) =
     (case recognize (trim line) of
        Some (lvl, ttl) \<Rightarrow> [\<lparr> f_level = lvl, f_title = ttl, f_offset = offs \<rparr>]
      | None \<Rightarrow> [])
     @ headings_loop (offs + int (length line) + 1) rest"

definition extractHeadings :: "string \<Rightarrow> FlatHeading list" where
  "extractHeadings txt = headings_loop 0 (split_on CHR 0x0A txt)"

subsection \<open>Tree building\<close>

record FlatHeadingEnd = FlatHeading +
  f_endOffset :: int

text \<open>\<open>withEnds\<close>: the end of a heading is the offset of the next heading of the same or a
  higher rank (\<open>flatHeadings.slice(i + 1).find(...)\<close>), or the length of the document.\<close>

fun with_ends :: "int \<Rightarrow> FlatHeading list \<Rightarrow> FlatHeadingEnd list" where
  "with_ends docLength [] = []"
| "with_ends docLength (h # rest) =
     \<lparr> f_level = f_level h, f_title = f_title h, f_offset = f_offset h,
       f_endOffset =
         (case find (\<lambda>n. f_level n \<le> f_level h) rest of
            Some nextSameOrHigher \<Rightarrow> f_offset nextSameOrHigher
          | None \<Rightarrow> docLength) \<rparr>
     # with_ends docLength rest"

text \<open>The inner loop of \<open>nestFrom\<close>:
  \<open>while (childEnd < end && items[childEnd].level > item.level) childEnd++\<close>.\<close>

function child_end :: "FlatHeadingEnd list \<Rightarrow> nat \<Rightarrow> nat \<Rightarrow> nat \<Rightarrow> nat" where
  "child_end items childEnd end' lvl =
     (if childEnd < end' \<and> f_level (items ! childEnd) > lvl
      then child_end items (Suc childEnd) end' lvl
      else childEnd)"
  by pat_completeness auto
termination
  by (relation "measure (\<lambda>(items, childEnd, end', lvl). end' - childEnd)") auto

lemma child_end_bounds: "k \<le> e \<Longrightarrow> k \<le> child_end items k e lvl \<and> child_end items k e lvl \<le> e"
proof (induction items k e lvl rule: child_end.induct)
  case (1 items childEnd end' lvl)
  show ?case
  proof (cases "childEnd < end' \<and> f_level (items ! childEnd) > lvl")
    case True
    then have "Suc childEnd \<le> end'" by simp
    from "1.IH" [OF True this]
    have ih: "Suc childEnd \<le> child_end items (Suc childEnd) end' lvl"
      "child_end items (Suc childEnd) end' lvl \<le> end'"
      by simp_all
    from True have "child_end items childEnd end' lvl = child_end items (Suc childEnd) end' lvl"
      by (subst child_end.simps) (simp del: child_end.simps)
    with ih show ?thesis by simp
  next
    case False
    then have "child_end items childEnd end' lvl = childEnd"
      by (subst child_end.simps) (simp only: if_False)
    with "1.prems" show ?thesis by simp
  qed
qed

text \<open>\<open>nestFrom(items, start, end, parentLevel)\<close>; the first argument of the recursion is
  the loop variable \<open>i\<close>.  The function is called with \<open>end \<le> items.length\<close> only, so every
  \<open>items[i]\<close> that it reads exists.\<close>

function nestFrom :: "FlatHeadingEnd list \<Rightarrow> nat \<Rightarrow> nat \<Rightarrow> nat \<Rightarrow> HeadingNode list" where
  "nestFrom items i end' parentLevel =
     (if i < end' then
        (let item = items ! i in
         if f_level item \<le> parentLevel \<and> parentLevel > 0 then []
         else
           (let childEnd = child_end items (i + 1) end' (f_level item);
                node = HeadingNode (f_level item) (f_title item) (f_offset item) (f_endOffset item)
                         (if childEnd > i + 1 then nestFrom items (i + 1) childEnd (f_level item)
                          else [])
            in node # nestFrom items childEnd end' parentLevel))
      else [])"
  by pat_completeness auto
termination
proof (relation "measure (\<lambda>(items, i, end', parentLevel). end' - i)", goal_cases)
  case 1
  show ?case by simp
next
  case (2 items i end' parentLevel item childEnd)
  from 2(1) have "Suc i \<le> end'" by simp
  from child_end_bounds [OF this, of items "f_level item"] 2(4)
  have "childEnd \<le> end'" by (simp del: child_end.simps)
  with 2(1) show ?case by (simp del: child_end.simps)
next
  case (3 items i end' parentLevel item childEnd node)
  from 3(1) have "Suc i \<le> end'" by simp
  from child_end_bounds [OF this, of items "f_level item"] 3(4)
  have "Suc i \<le> childEnd" by (simp del: child_end.simps)
  with 3(1) show ?case by (simp del: child_end.simps)
qed

declare child_end.simps [simp del] nestFrom.simps [simp del]

definition buildHierarchyTree :: "FlatHeading list \<Rightarrow> int \<Rightarrow> HeadingNode list" where
  "buildHierarchyTree flatHeadings docLength =
     (if length flatHeadings = 0 then []
      else (let withEnds = with_ends docLength flatHeadings
            in nestFrom withEnds 0 (length withEnds) 0))"

subsection \<open>Outline\<close>

text \<open>A natural number in decimal, as a template literal prints it.\<close>

function show_nat :: "nat \<Rightarrow> string" where
  "show_nat n =
     (if n < 10 then [char_of (48 + n)]
      else show_nat (n div 10) @ [char_of (48 + n mod 10)])"
  by pat_completeness auto
termination
  by (relation "measure id") auto

text \<open>\<open>generateOutline\<close>: \<open>outline_lines\<close> is the \<open>forEach\<close> loop with its index \<open>i\<close>; it
  returns what the loop pushes on \<open>lines\<close>.  A node always has \<open>level \<ge> 1\<close> here.\<close>

fun outline_lines :: "int \<Rightarrow> string \<Rightarrow> nat \<Rightarrow> HeadingNode list \<Rightarrow> string list" where
  "outline_lines maxDepth pfx i [] = []"
| "outline_lines maxDepth pfx i (HeadingNode lvl ttl s e ch # rest) =
     (if int lvl > maxDepth then []
      else
        (let num = pfx @ show_nat (i + 1);
             indent = concat (replicate (lvl - 1) ''  '')
         in (indent @ num @ ''. '' @ ttl)
            # (if length ch > 0
               then [join [CHR 0x0A] (outline_lines maxDepth (num @ ''.'') 0 ch)]
               else [])))
     @ outline_lines maxDepth pfx (Suc i) rest"

definition generateOutline :: "HeadingNode list \<Rightarrow> int \<Rightarrow> string \<Rightarrow> string" where
  "generateOutline tree maxDepth pfx = join [CHR 0x0A] (outline_lines maxDepth pfx 0 tree)"

subsection \<open>Positional fallback\<close>

definition ceil_div :: "nat \<Rightarrow> nat \<Rightarrow> nat" where
  "ceil_div a b = (a + b - 1) div b"

definition section_title :: "nat \<Rightarrow> nat \<Rightarrow> string" where
  "section_title k n = ''Section '' @ show_nat k @ '' of '' @ show_nat n"

definition positionalSections :: "string \<Rightarrow> nat \<Rightarrow> HeadingNode list" where
  "positionalSections txt targetCount =
     (let count = max 1 (min targetCount (ceil_div (length txt) 500));
          sectionSize = ceil_div (length txt) count
      in map (\<lambda>i. HeadingNode 1 (section_title (i + 1) count)
                     (int (i * sectionSize))
                     (int (min ((i + 1) * sectionSize) (length txt))) [])
             [0..<count])"

subsection \<open>Summaries\<close>

text \<open>
  \<open>text.match(/[^.!?]+[.!?]+/g)\<close>: a match is a maximal run of other characters followed by a
  maximal run of \<open>.\<close>, \<open>!\<close>, \<open>?\<close>; a run that reaches the end of the text is no match.
\<close>

function sentence_matches :: "string \<Rightarrow> string list" where
  "sentence_matches s =
     (let s1 = dropWhile is_terminator s;
          body = takeWhile (\<lambda>c. \<not> is_terminator c) s1;
          r = dropWhile (\<lambda>c. \<not> is_terminator c) s1
      in if body = [] \<or> r = [] then []
         else (body @ takeWhile is_terminator r) # sentence_matches (dropWhile is_terminator r))"
  by pat_completeness auto
termination
proof (relation "measure length", goal_cases)
  case 1
  show ?case by simp
next
  case (2 s s1 body r)
  have "length (dropWhile is_terminator r) \<le> length r"
    by (rule length_dropWhile_le)
  moreover have "length r < length s1"
    using 2 by (metis append_self_conv2 length_append less_add_same_cancel2 length_greater_0_conv
        takeWhile_dropWhile_id)
  moreover have "length s1 \<le> length s"
    using 2 by (simp add: length_dropWhile_le)
  ultimately show ?case by simp
qed

text \<open>\<open>xs.slice(0, n)\<close> on an array, with an integer \<open>n\<close>.\<close>

definition slice0 :: "'a list \<Rightarrow> int \<Rightarrow> 'a list" where
  "slice0 xs n = take (slice_pos (length xs) n) xs"

definition extractSentences :: "string \<Rightarrow> int \<Rightarrow> string" where
  "extractSentences txt maxSentences =
     (let ms = sentence_matches txt;
          sentences = (if ms = [] then [trim txt] else ms)
      in join '' '' (map trim (slice0 sentences maxSentences)))"

definition generateDocSummary :: "string \<Rightarrow> int \<Rightarrow> string" where
  "generateDocSummary txt maxSentences = extractSentences txt maxSentences"

definition generateSectionSummaries :: "string \<Rightarrow> HeadingNode list \<Rightarrow> int \<Rightarrow> SectionSummary list" where
  "generateSectionSummaries txt sections maxSentences =
     map (\<lambda>section.
            \<lparr> s_title = title section,
              s_summary = extractSentences (slice txt (startOffset section) (endOffset section))
                            maxSentences,
              s_startOffset = startOffset section,
              s_endOffset = endOffset section \<rparr>)
         sections"

definition flattenTopLevel :: "HeadingNode list \<Rightarrow> HeadingNode list" where
  "flattenTopLevel hs =
     (if length hs = 0 then []
      else (let minLevel = Min (set (map level hs)) in filter (\<lambda>h. level h = minLevel) hs))"

subsection \<open>Context prefix\<close>

fun findHeadingPath :: "int \<Rightarrow> HeadingNode list \<Rightarrow> HeadingNode list" where
  "findHeadingPath offs [] = []"
| "findHeadingPath offs (HeadingNode lvl ttl s e ch # rest) =
     (if offs \<ge> s \<and> offs < e then HeadingNode lvl ttl s e ch # findHeadingPath offs ch
      else findHeadingPath offs rest)"

definition buildContextPrefix :: "int \<Rightarrow> HeadingNode list \<Rightarrow> string" where
  "buildContextPrefix offs hs =
     (let path = findHeadingPath offs hs
      in if length path = 0 then [] else join '' > '' (map title path))"

section \<open>The external capabilities\<close>

text \<open>
  The embedder and the vector store are not part of the program: each is a function on a
  state \<open>'w\<close> of the outside world, and a call that throws (a rejected promise) returns
  \<open>None\<close> or \<open>False\<close>.  Every call is also recorded, in order, in a log of type
  \<open>'n call list\<close>, so that a run threads the pair of the world and the log.
  The components of an embedding vector are numbers of the type \<open>'n\<close>.
\<close>

type_synonym 'n vector = "'n list"

datatype error = EmbedderError | VectorStoreError | TypeError | Error string

record 'n ChunkRecord =
  cr_text :: string
  cr_chunkHash :: string
  cr_chunkIndex :: nat
  cr_start :: int
  cr_end :: int
  cr_sectionTitle :: string
  cr_sectionPath :: string
  cr_contextPrefix :: string
  cr_vector :: "'n vector option"

datatype 'n call = EmbedBatch "string list" | Insert "'n ChunkRecord list" | Reset

record ('n, 'w) externals =
  embedBatch :: "string list \<Rightarrow> 'w \<Rightarrow> 'n vector list option \<times> 'w"
  vdb_insert :: "'n ChunkRecord list \<Rightarrow> 'w \<Rightarrow> bool \<times> 'w"
  vdb_reset :: "'w \<Rightarrow> bool \<times> 'w"

definition do_embedBatch ::
  "('n, 'w) externals \<Rightarrow> string list \<Rightarrow> 'w \<times> 'n call list \<Rightarrow> (error + 'n vector list) \<times> ('w \<times> 'n call list)" where
  "do_embedBatch X texts st =
     (case embedBatch X texts (fst st) of
        (r, w') \<Rightarrow>
          ((case r of Some vectors \<Rightarrow> Inr vectors | None \<Rightarrow> Inl EmbedderError),
           (w', snd st @ [EmbedBatch texts])))"

definition do_insert ::
  "('n, 'w) externals \<Rightarrow> 'n ChunkRecord list \<Rightarrow> 'w \<times> 'n call list \<Rightarrow> (error + unit) \<times> ('w \<times> 'n call list)" where
  "do_insert X records st =
     (case vdb_insert X records (fst st) of
        (ok, w') \<Rightarrow>
          ((if ok then Inr () else Inl VectorStoreError), (w', snd st @ [Insert records])))"

definition do_reset ::
  "('n, 'w) externals \<Rightarrow> 'w \<times> 'n call list \<Rightarrow> (error + unit) \<times> ('w \<times> 'n call list)" where
  "do_reset X st =
     (case vdb_reset X (fst st) of
        (ok, w') \<Rightarrow> ((if ok then Inr () else Inl VectorStoreError), (w', snd st @ [Reset])))"

section \<open>Sections from embeddings\<close>

record Paragraph =
  p_text :: string
  p_start :: int
  p_end :: int

fun paragraphs_loop :: "string \<Rightarrow> nat \<Rightarrow> string list \<Rightarrow> Paragraph list" where
  "paragraphs_loop txt offs [] = []"
| "paragraphs_loop txt offs (part # rest) =
     (let trimmed = trim part in
      (if length trimmed > 0
       then (let start = indexOf txt trimmed offs
             in [\<lparr> p_text = trimmed, p_start = start, p_end = start + int (length trimmed) \<rparr>])
       else [])
      @ paragraphs_loop txt (offs + length part + 1) rest)"

definition splitParagraphs :: "string \<Rightarrow> Paragraph list" where
  "splitParagraphs txt = paragraphs_loop txt 0 (split_paragraphs txt)"

text \<open>\<open>xs[i]\<close> on an array: \<open>None\<close> is \<open>undefined\<close>.\<close>

definition nth_opt :: "'a list \<Rightarrow> nat \<Rightarrow> 'a option" where
  "nth_opt xs i = (if i < length xs then Some (xs ! i) else None)"

text \<open>
  \<open>cosineSimilarity(a, b)\<close>.  Reading \<open>a.length\<close> of \<open>undefined\<close> throws, and so does
  \<open>b[0]\<close> for an undefined \<open>b\<close> when the loop runs; \<open>b[i]\<close> past the end of \<open>b\<close> is
  \<open>undefined\<close>, not-a-number in the products.  The three sums are accumulated from
  zero, in the order of the loop.
\<close>

definition cosineSimilarity ::
  "'n arithmetic \<Rightarrow> 'n vector option \<Rightarrow> 'n vector option \<Rightarrow> error + 'n" where
  "cosineSimilarity ar a b =
     (case a of
        None \<Rightarrow> Inl TypeError
      | Some av \<Rightarrow>
          if (case b of None \<Rightarrow> length av > 0 | Some bv \<Rightarrow> False) then Inl TypeError
          else
            (let bv = (case b of Some v \<Rightarrow> v | None \<Rightarrow> []);
                 b_at = (\<lambda>i. if i < length bv then bv ! i else n_nan ar);
                 dot = foldl (\<lambda>acc i. n_add ar acc (n_mul ar (av ! i) (b_at i)))
                         (n_of_nat ar 0) [0..<length av];
                 magA = foldl (\<lambda>acc i. n_add ar acc (n_mul ar (av ! i) (av ! i)))
                          (n_of_nat ar 0) [0..<length av];
                 magB = foldl (\<lambda>acc i. n_add ar acc (n_mul ar (b_at i) (b_at i)))
                          (n_of_nat ar 0) [0..<length av];
                 denom = n_mul ar (n_sqrt ar magA) (n_sqrt ar magB)
             in Inr (if n_eq ar denom (n_of_nat ar 0) then n_of_nat ar 0
                     else n_div ar dot denom)))"

fun collect :: "(error + 'a) list \<Rightarrow> error + 'a list" where
  "collect [] = Inr []"
| "collect (x # xs) =
     (case x of
        Inl e \<Rightarrow> Inl e
      | Inr v \<Rightarrow> (case collect xs of Inl e \<Rightarrow> Inl e | Inr vs \<Rightarrow> Inr (v # vs)))"

definition similarities_of :: "'n arithmetic \<Rightarrow> 'n vector list \<Rightarrow> nat \<Rightarrow> error + 'n list" where
  "similarities_of ar vectors n =
     collect (map (\<lambda>i. cosineSimilarity ar (nth_opt vectors (i - 1)) (nth_opt vectors i)) [1..<n])"

text \<open>The adaptive threshold \<open>mean - opts.similarityThreshold * std\<close>, with the two
  \<open>reduce\<close> sums accumulated from zero in the order of the list.\<close>

definition dynamic_threshold :: "'n arithmetic \<Rightarrow> 'n \<Rightarrow> 'n list \<Rightarrow> 'n" where
  "dynamic_threshold ar k similarities =
     (if length similarities > 0 then
        (let len = n_of_nat ar (length similarities);
             mean = n_div ar (foldl (n_add ar) (n_of_nat ar 0) similarities) len;
             std = n_sqrt ar
                     (n_div ar
                        (foldl (\<lambda>a b. n_add ar a (n_pow ar (n_sub ar b mean) (n_of_nat ar 2)))
                           (n_of_nat ar 0) similarities)
                        len)
         in n_sub ar mean (n_mul ar k std))
      else k)"

definition topic_boundaries :: "'n arithmetic \<Rightarrow> 'n list \<Rightarrow> 'n \<Rightarrow> nat list" where
  "topic_boundaries ar similarities threshold =
     0 # map Suc (filter (\<lambda>i. n_less ar (similarities ! i) threshold)
                    [0..<length similarities])"

text \<open>The loop of \<open>mergeTinySections\<close>; \<open>merged\<close> is never empty.\<close>

fun merge_tiny_loop :: "Paragraph list \<Rightarrow> int \<Rightarrow> nat list \<Rightarrow> nat list \<Rightarrow> nat list" where
  "merge_tiny_loop paragraphs minSize merged [] = merged"
| "merge_tiny_loop paragraphs minSize merged (currentStart # rest) =
     (let prevStart = last merged;
          prevSize = (\<Sum>j \<leftarrow> [prevStart..<min currentStart (length paragraphs)].
                        length (p_text (paragraphs ! j)))
      in merge_tiny_loop paragraphs minSize
           (if int prevSize \<ge> minSize then merged @ [currentStart] else merged) rest)"

definition mergeTinySections :: "nat list \<Rightarrow> Paragraph list \<Rightarrow> int \<Rightarrow> nat list" where
  "mergeTinySections boundaries paragraphs minSize =
     (if length boundaries \<le> 1 then boundaries
      else merge_tiny_loop paragraphs minSize [hd boundaries] (tl boundaries))"

definition sections_of_boundaries :: "string \<Rightarrow> Paragraph list \<Rightarrow> nat list \<Rightarrow> HeadingNode list" where
  "sections_of_boundaries txt paragraphs mergedBoundaries =
     map (\<lambda>i.
            (let startIdx = mergedBoundaries ! i;
                 endIdx = (if i + 1 < length mergedBoundaries then mergedBoundaries ! (i + 1)
                           else length paragraphs)
             in HeadingNode 1 (section_title (i + 1) (length mergedBoundaries))
                  (p_start (paragraphs ! startIdx))
                  (case (if endIdx = 0 then None else nth_opt paragraphs (endIdx - 1)) of
                     Some p \<Rightarrow> p_end p
                   | None \<Rightarrow> int (length txt))
                  []))
         [0..<length mergedBoundaries]"

definition detectSectionsByEmbedding ::
  "'n arithmetic \<Rightarrow> string \<Rightarrow> ('n, 'w) externals \<Rightarrow> 'n HierarchyOptions \<Rightarrow> 'w \<times> 'n call list
   \<Rightarrow> (error + HeadingNode list) \<times> ('w \<times> 'n call list)" where
  "detectSectionsByEmbedding ar txt embedder options st =
     (let opts = resolveOptions ar options;
          paragraphs = splitParagraphs txt
      in if length paragraphs \<le> 1
         then (Inr [HeadingNode 1 ''Section 1 of 1'' 0 (int (length txt)) []], st)
         else
           (case do_embedBatch embedder (map p_text paragraphs) st of
              (Inl e, st') \<Rightarrow> (Inl e, st')
            | (Inr vectors, st') \<Rightarrow>
                (case similarities_of ar vectors (length paragraphs) of
                   Inl e \<Rightarrow> (Inl e, st')
                 | Inr similarities \<Rightarrow>
                     (let threshold = dynamic_threshold ar (r_similarityThreshold opts) similarities;
                          boundaries = topic_boundaries ar similarities threshold;
                          mergedBoundaries =
                            mergeTinySections boundaries paragraphs (r_minSectionSize opts)
                      in (Inr (sections_of_boundaries txt paragraphs mergedBoundaries), st')))))"

section \<open>The entry point of the hierarchy extractor\<close>

definition extractHierarchy ::
  "'n arithmetic \<Rightarrow> string \<Rightarrow> ('n, 'w) externals option \<Rightarrow> 'n HierarchyOptions \<Rightarrow> 'w \<times> 'n call list
   \<Rightarrow> (error + HierarchyMap) \<times> ('w \<times> 'n call list)" where
  "extractHierarchy ar txt embedder options st =
     (let opts = resolveOptions ar options;
          flatHeadings = extractHeadings txt;
          found =
            (if length flatHeadings > 0
             then (Inr (buildHierarchyTree flatHeadings (int (length txt)), Heading), st)
             else
               (case embedder of
                  Some emb \<Rightarrow>
                    (case detectSectionsByEmbedding ar txt emb options st of
                       (Inl e, st') \<Rightarrow> (Inl e, st')
                     | (Inr hs, st') \<Rightarrow> (Inr (hs, EmbeddingSimilarity), st'))
                | None \<Rightarrow> (Inr (positionalSections txt 5, Positional), st)))
      in case found of
           (Inl e, st') \<Rightarrow> (Inl e, st')
         | (Inr (hs, strat), st') \<Rightarrow>
             (Inr \<lparr> headings = hs,
                    outline = generateOutline hs (r_maxOutlineDepth opts) [],
                    documentSummary = generateDocSummary txt (r_docSummaryMaxSentences opts),
                    sectionSummaries =
                      generateSectionSummaries txt (flattenTopLevel hs)
                        (r_sectionSummaryMaxSentences opts),
                    strategy = strat \<rparr>,
              st'))"

section \<open>Hierarchy-aware chunking\<close>

fun flattenSections :: "HeadingNode list \<Rightarrow> HeadingNode list" where
  "flattenSections [] = []"
| "flattenSections (HeadingNode lvl ttl s e ch # rest) =
     (if length ch = 0 then [HeadingNode lvl ttl s e ch] else flattenSections ch)
     @ flattenSections rest"

text \<open>The loop of \<open>chunkWithHierarchy\<close> over the leaf sections; \<open>globalIndex\<close> is the running
  chunk index.  An empty \<open>contextPrefix\<close> is falsy, so the chunk's \<open>contextPrefix\<close> is
  then \<open>undefined\<close>.\<close>

fun sections_loop ::
  "(string \<Rightarrow> string) \<Rightarrow> string \<Rightarrow> HeadingNode list \<Rightarrow> ChunkOptions \<Rightarrow> nat \<Rightarrow> HeadingNode list
   \<Rightarrow> Chunk list" where
  "sections_loop sha256 txt hs options globalIndex [] = []"
| "sections_loop sha256 txt hs options globalIndex (section # rest) =
     (let sectionText = slice txt (startOffset section) (endOffset section) in
      if length (trim sectionText) = 0 then sections_loop sha256 txt hs options globalIndex rest
      else
        (let sectionChunks = chunkText sha256 sectionText options;
             contextPrefix = buildContextPrefix (startOffset section) hs
         in map (\<lambda>(k, chunk).
                   chunk \<lparr> c_index := globalIndex + k,
                           c_start := c_start chunk + startOffset section,
                           c_end := c_end chunk + startOffset section,
                           c_sectionTitle := Some (title section),
                           c_sectionPath := Some contextPrefix,
                           c_contextPrefix :=
                             (if contextPrefix \<noteq> [] then Some (''['' @ contextPrefix @ ''] '')
                              else None) \<rparr>)
                (zip [0..<length sectionChunks] sectionChunks)
            @ sections_loop sha256 txt hs options (globalIndex + length sectionChunks) rest))"

definition chunkWithHierarchy ::
  "(string \<Rightarrow> string) \<Rightarrow> string \<Rightarrow> HierarchyMap \<Rightarrow> ChunkOptions \<Rightarrow> Chunk list" where
  "chunkWithHierarchy sha256 txt hierarchy options =
     sections_loop sha256 txt (headings hierarchy) options 0 (flattenSections (headings hierarchy))"

section \<open>The sync manager\<close>

text \<open>The manager's fields.  \<open>storedHashes\<close> is a \<open>Set\<close>: a list without repetitions, in
  insertion order.\<close>

record DocSyncManager =
  lastDocHash :: "string option"
  storedHashes :: "string list"
  lastHierarchy :: "HierarchyMap option"

definition new_Set :: "'a list \<Rightarrow> 'a list" where
  "new_Set xs = rev (remdups (rev xs))"

definition record_of :: "Chunk \<Rightarrow> 'n vector option \<Rightarrow> 'n ChunkRecord" where
  "record_of c v =
     \<lparr> cr_text = c_text c, cr_chunkHash = c_hash c, cr_chunkIndex = c_index c,
       cr_start = c_start c, cr_end = c_end c,
       cr_sectionTitle = (case c_sectionTitle c of Some t \<Rightarrow> t | None \<Rightarrow> []),
       cr_sectionPath = (case c_sectionPath c of Some t \<Rightarrow> t | None \<Rightarrow> []),
       cr_contextPrefix = (case c_contextPrefix c of Some t \<Rightarrow> t | None \<Rightarrow> []),
       cr_vector = v \<rparr>"

definition records_of :: "Chunk list \<Rightarrow> 'n vector list \<Rightarrow> 'n ChunkRecord list" where
  "records_of chunks vectors =
     map (\<lambda>(i, c). record_of c (nth_opt vectors i)) (zip [0..<length chunks] chunks)"

definition embedAndInsert ::
  "('n, 'w) externals \<Rightarrow> Chunk list \<Rightarrow> 'w \<times> 'n call list \<Rightarrow> (error + unit) \<times> ('w \<times> 'n call list)" where
  "embedAndInsert X chunks st =
     (if length chunks = 0 then (Inr (), st)
      else
        (case do_embedBatch X (map c_text chunks) st of
           (Inl e, st') \<Rightarrow> (Inl e, st')
         | (Inr vectors, st') \<Rightarrow> do_insert X (records_of chunks vectors) st'))"

definition fullResync ::
  "('n, 'w) externals \<Rightarrow> string list \<Rightarrow> Chunk list \<Rightarrow> 'w \<times> 'n call list
   \<Rightarrow> (error + unit) \<times> ('w \<times> 'n call list)" where
  "fullResync X stored allChunks st =
     (let newChunks = filter (\<lambda>c. c_hash c \<notin> set stored) allChunks;
          existingChunks = filter (\<lambda>c. c_hash c \<in> set stored) allChunks
      in case (if length newChunks > 0 then do_embedBatch X (map c_text newChunks) st
               else (Inr [], st)) of
           (Inl e, st1) \<Rightarrow> (Inl e, st1)
         | (Inr newVectors, st1) \<Rightarrow>
             (case (if length existingChunks > 0
                    then do_embedBatch X (map c_text existingChunks) st1
                    else (Inr [], st1)) of
                (Inl e, st2) \<Rightarrow> (Inl e, st2)
              | (Inr existingVectors, st2) \<Rightarrow>
                  (case do_reset X st2 of
                     (Inl e, st3) \<Rightarrow> (Inl e, st3)
                   | (Inr u, st3) \<Rightarrow>
                       (let records = records_of newChunks newVectors
                                      @ records_of existingChunks existingVectors
                        in if length records > 0 then do_insert X records st3
                           else (Inr (), st3)))))"

text \<open>
  \<open>syncIfNeeded\<close>.  The result is the returned boolean or the error thrown, the manager
  after the call, and the world with the log of the external calls.  \<open>copts\<close> and \<open>hopts\<close>
  are the chunking fields and the hierarchy fields of the one \<open>options\<close> object.
\<close>

definition syncIfNeeded ::
  "'n arithmetic \<Rightarrow> ('n, 'w) externals \<Rightarrow> (string \<Rightarrow> string) \<Rightarrow> DocSyncManager \<Rightarrow> string \<Rightarrow> ChunkOptions
   \<Rightarrow> 'n HierarchyOptions \<Rightarrow> 'w \<times> 'n call list
   \<Rightarrow> (error + bool) \<times> DocSyncManager \<times> ('w \<times> 'n call list)" where
  "syncIfNeeded ar X sha256 mgr docText copts hopts st =
     (let docHash = hashDocument sha256 docText in
      if Some docHash = lastDocHash mgr then (Inr False, mgr, st)
      else
        (case extractHierarchy ar docText (Some X) hopts st of
           (Inl e, st1) \<Rightarrow> (Inl e, mgr, st1)
         | (Inr hierarchy, st1) \<Rightarrow>
             (let mgr1 = mgr \<lparr> lastHierarchy := Some hierarchy \<rparr>;
                  chunks = chunkWithHierarchy sha256 docText hierarchy copts;
                  newHashes = new_Set (map c_hash chunks);
                  toInsert = filter (\<lambda>c. c_hash c \<notin> set (storedHashes mgr1)) chunks;
                  toDelete = filter (\<lambda>h. h \<notin> set newHashes) (storedHashes mgr1)
              in case (if length toDelete > 0 then fullResync X (storedHashes mgr1) chunks st1
                       else if length toInsert > 0 then embedAndInsert X toInsert st1
                       else (Inr (), st1)) of
                   (Inl e, st2) \<Rightarrow> (Inl e, mgr1, st2)
                 | (Inr u, st2) \<Rightarrow>
                     (Inr True, mgr1 \<lparr> storedHashes := newHashes, lastDocHash := Some docHash \<rparr>,
                      st2))))"

section \<open>The summarize orchestrator\<close>







section \<open>Statements of the specification\<close>

text \<open>
  The overlap rule in the words of the specification: the last \<open>overlap\<close> characters of the
  previous canonical segment, cut at the first space (the characters after the first space
  are kept; a slice without a space is kept as it is), joined to the segment by one space.
\<close>

definition spec_overlap_text :: "int \<Rightarrow> string \<Rightarrow> string \<Rightarrow> string" where
  "spec_overlap_text ov prev seg =
     (let tail = drop (length prev - nat ov) prev in
      (if CHR '' '' \<in> set tail then tl (dropWhile (\<lambda>c. c \<noteq> CHR '' '') tail) else tail)
      @ '' '' @ seg)"

section \<open>Concrete collaborators for the scenarios\<close>

text \<open>
  An embedder that maps every text to the vector \<open>[0]\<close>, a store that accepts every call,
  and a store whose \<open>insert\<close> is rejected; the world has no state of its own.  Further the
  options object that sets no field, and the manager as its constructor leaves it.
\<close>

text \<open>
  The scenarios need values for the arithmetic and for the numbers: the operations of
  the real numbers, which have no not-a-number (the scenarios read none), with the power
  taken for exponents that are natural numbers (the program squares only).  The sections
  that the scenarios compute are the same for every arithmetic, since their paragraphs
  are shorter than \<open>minSectionSize\<close> and are merged into one section.
\<close>

definition real_arith :: "real arithmetic" where
  "real_arith =
     \<lparr> n_of_nat = real, n_half = 1 / 2, n_nan = 0, n_add = (+), n_sub = (-), n_mul = (*),
       n_div = (/), n_pow = (\<lambda>x y. x ^ nat \<lfloor>y\<rfloor>), n_sqrt = sqrt, n_less = (<), n_eq = (=) \<rparr>"

definition accepting :: "(real, unit) externals" where
  "accepting =
     \<lparr> embedBatch = (\<lambda>texts w. (Some (map (\<lambda>t. [0]) texts), w)),
       vdb_insert = (\<lambda>records w. (True, w)),
       vdb_reset = (\<lambda>w. (True, w)) \<rparr>"

definition rejecting_insert :: "(real, unit) externals" where
  "rejecting_insert =
     \<lparr> embedBatch = (\<lambda>texts w. (Some (map (\<lambda>t. [0]) texts), w)),
       vdb_insert = (\<lambda>records w. (False, w)),
       vdb_reset = (\<lambda>w. (True, w)) \<rparr>"

text \<open>
  A vector store that keeps its records: the world is the list of records in the store.
  The embedder maps a text to the one-component vector of its length.
\<close>

definition storing :: "(real, real ChunkRecord list) externals" where
  "storing =
     \<lparr> embedBatch = (\<lambda>texts w. (Some (map (\<lambda>t. [real (length t)]) texts), w)),
       vdb_insert = (\<lambda>records w. (True, w @ records)),
       vdb_reset = (\<lambda>w. (True, [])) \<rparr>"

definition no_chunk_options :: ChunkOptions where
  "no_chunk_options = \<lparr> maxChunkSize = None, overlap = None \<rparr>"

definition no_hierarchy_options :: "'n HierarchyOptions" where
  "no_hierarchy_options =
     \<lparr> similarityThreshold = None, minSectionSize = None, docSummaryMaxSentences = None,
       sectionSummaryMaxSentences = None, maxOutlineDepth = None \<rparr>"

definition new_manager :: DocSyncManager where
  "new_manager = \<lparr> lastDocHash = None, storedHashes = [], lastHierarchy = None \<rparr>"

text \<open>A stand-in for the digest in the scenarios: an injective function on texts.\<close>

definition plain_digest :: "string \<Rightarrow> string" where
  "plain_digest t = t"

text \<open>Chunk options of the append scenario, and the manager as the sync of the text
  \<open>"Hello"\<close> with these options leaves it.\<close>

definition small_chunk_options :: ChunkOptions where
  "small_chunk_options = \<lparr> maxChunkSize = Some 5, overlap = Some 0 \<rparr>"

definition hello_manager :: DocSyncManager where
  "hello_manager =
     \<lparr> lastDocHash = Some ''Hello'',
       storedHashes = [''Hello''],
       lastHierarchy =
         Some \<lparr> headings = [HeadingNode 1 ''Section 1 of 1'' 0 5 []],
                outline = ''1. Section 1 of 1'',
                documentSummary = ''Hello'',
                sectionSummaries =
                  [\<lparr> s_title = ''Section 1 of 1'', s_summary = ''Hello'',
                     s_startOffset = 0, s_endOffset = 5 \<rparr>],
                strategy = EmbeddingSimilarity \<rparr> \<rparr>"




section \<open>Predicates of the statements\<close>

text \<open>A chunk lies in the document: \<open>0 \<le> start \<le> end \<le> len(text)\<close>.\<close>

definition chunk_in_bounds :: "string \<Rightarrow> Chunk \<Rightarrow> bool" where
  "chunk_in_bounds txt c = (0 \<le> c_start c \<and> c_start c \<le> c_end c \<and> c_end c \<le> int (length txt))"

text \<open>
  A heading node is well formed in a document of length \<open>len\<close>: its range is not empty and
  ends in the document; every child starts after the node starts, ends where the node
  ends or before, and has a greater level; the children, in order, do not overlap; and
  every child is well formed.  \<open>disjoint_in_order\<close> says that each range of a list ends
  before the ranges after it start.
\<close>

definition disjoint_in_order :: "HeadingNode list \<Rightarrow> bool" where
  "disjoint_in_order ns = sorted_wrt (\<lambda>a b. endOffset a \<le> startOffset b) ns"

fun tree_ok :: "int \<Rightarrow> HeadingNode \<Rightarrow> bool" where
  "tree_ok len (HeadingNode lvl ttl s e ch) =
     (s < e \<and> e \<le> len
      \<and> (\<forall>c \<in> set ch. s < startOffset c \<and> endOffset c \<le> e \<and> lvl < level c \<and> tree_ok len c)
      \<and> disjoint_in_order ch)"

(*THEOREMS*)
section \<open>Scenario: plain chunking without overlap\<close>

text \<open>
  Claim C9.  For the text \<open>"A paragraph.\n\nAnother."\<close> with \<open>maxChunkSize = 50\<close> and
  \<open>overlap = 0\<close>, \<open>chunkText\<close> returns exactly one chunk: its text is the whole input,
  \<open>start = 0\<close>, \<open>end = 22\<close>, and its hash is the SHA-256 digest of the chunk text.
\<close>

theorem C9_plain_chunking:
  "chunkText sha256 ''A paragraph.\<newline>\<newline>Another.''
     \<lparr> maxChunkSize = Some 50, overlap = Some 0 \<rparr>
   = [\<lparr> c_index = 0, c_text = ''A paragraph.\<newline>\<newline>Another.'', c_start = 0, c_end = 22,
         c_hash = sha256 ''A paragraph.\<newline>\<newline>Another.'', c_sectionTitle = None,
         c_sectionPath = None, c_contextPrefix = None \<rparr>]"
  by code_simp

section \<open>Overlap between consecutive chunks\<close>

lemma index_at_char:
  "index_at [c] s k = (if c \<in> set s then Some (k + length (takeWhile (\<lambda>x. x \<noteq> c) s)) else None)"
  by (induction s arbitrary: k) auto

lemma indexOf_char:
  "indexOf s [c] 0 = (if c \<in> set s then int (length (takeWhile (\<lambda>x. x \<noteq> c) s)) else - 1)"
  by (simp add: indexOf_def index_at_char)

lemma slice_from_neg: "0 < ov \<Longrightarrow> slice_from prev (- ov) = drop (length prev - nat ov) prev"
  by (simp add: slice_from_def slice_pos_def nat_diff_distrib' max_def)

lemma slice_from_nonneg: "0 \<le> k \<Longrightarrow> slice_from s k = drop (nat k) s"
  by (auto simp: slice_from_def slice_pos_def min_def)

lemma drop_after_first:
  "c \<in> set s \<Longrightarrow> drop (Suc (length (takeWhile (\<lambda>x. x \<noteq> c) s))) s = tl (dropWhile (\<lambda>x. x \<noteq> c) s)"
  by (induction s) auto

lemma cleanOverlap_eq:
  assumes "0 < ov"
  shows "cleanOverlap ov prev =
     (let tail = drop (length prev - nat ov) prev in
      if CHR '' '' \<in> set tail \<and> hd tail \<noteq> CHR '' ''
      then tl (dropWhile (\<lambda>c. c \<noteq> CHR '' '') tail) else tail)"
proof -
  define tail where "tail = drop (length prev - nat ov) prev"
  have sl: "slice_from prev (- ov) = tail"
    using assms by (simp add: slice_from_neg tail_def)
  have pos: "(takeWhile (\<lambda>x. x \<noteq> CHR '' '') tail = []) = (tail = [] \<or> hd tail = CHR '' '')"
    by (cases tail) auto
  show ?thesis
    unfolding cleanOverlap_def sl Let_def tail_def [symmetric]
    by (auto simp: indexOf_char slice_from_nonneg nat_add_distrib drop_after_first pos)
qed

lemma overlap_loop_nth:
  "i < length rest \<Longrightarrow>
   overlap_loop ov prev rest ! i = cleanOverlap ov ((prev # rest) ! i) @ '' '' @ rest ! i"
  by (induction rest arbitrary: prev i) (auto simp: nth_Cons split: nat.splits)

lemma applyOverlap_nth:
  assumes "0 < ov" "0 < i" "i < length segments"
  shows "applyOverlap segments ov ! i = cleanOverlap ov (segments ! (i - 1)) @ '' '' @ segments ! i"
proof -
  from assms obtain s rest where seg: "segments = s # rest" by (cases segments) auto
  from assms obtain j where j: "i = Suc j" by (cases i) auto
  with assms seg have "j < length rest" by simp
  from overlap_loop_nth [OF this, of ov s] assms seg j \<open>j < length rest\<close> show ?thesis
    by (auto simp: applyOverlap_def)
qed

text \<open>
  Claim C8, as stated, fails.  The text \<open>"ab cd\n\nXYZW"\<close> with \<open>maxChunkSize = 5\<close> and
  \<open>overlap = 3\<close> has the canonical segments \<open>"ab cd"\<close> and \<open>"XYZW"\<close>.  The last three characters
  of the first are \<open>" cd"\<close>; the rule of the specification keeps \<open>"cd"\<close> and gives the chunk text
  \<open>"cd XYZW"\<close>, while the program tests \<open>firstSpace > 0\<close>, keeps the slice with its leading
  space and emits \<open>" cd XYZW"\<close>.
\<close>

theorem C8_overlap_counterexample:
  "map c_text (chunkText plain_digest ''ab cd\<newline>\<newline>XYZW'' \<lparr> maxChunkSize = Some 5, overlap = Some 3 \<rparr>)
     = [''ab cd'', '' cd XYZW'']
   \<and> splitIntoSegments ''ab cd\<newline>\<newline>XYZW'' 5 = [''ab cd'', ''XYZW'']
   \<and> spec_overlap_text 3 ''ab cd'' ''XYZW'' = ''cd XYZW''"
  by code_simp

text \<open>
  Claim C8, amended.  With \<open>overlap > 0\<close>, the first segment is emitted unchanged, and every
  later segment is emitted as the overlap prefix, one space, and the segment itself.  The
  prefix is taken from the last \<open>overlap\<close> characters of the previous canonical segment: when
  that slice contains a space and does not begin with one, the prefix is what follows its
  first space; when it contains no space or begins with a space, the prefix is the whole
  slice.
\<close>

theorem C8_overlap_prefix:
  assumes "0 < ov" and "i < length segments"
  shows "applyOverlap segments ov ! i =
     (if i = 0 then segments ! 0
      else
        (let tail = drop (length (segments ! (i - 1)) - nat ov) (segments ! (i - 1)) in
         (if CHR '' '' \<in> set tail \<and> hd tail \<noteq> CHR '' ''
          then tl (dropWhile (\<lambda>c. c \<noteq> CHR '' '') tail) else tail)
         @ '' '' @ segments ! i))"
proof (cases "i = 0")
  case True
  with assms(2) show ?thesis
    by (cases segments) (simp_all add: applyOverlap_def)
next
  case False
  with assms applyOverlap_nth [of ov i segments] cleanOverlap_eq [OF assms(1), of "segments ! (i - 1)"]
  show ?thesis by (simp add: Let_def)
qed

theorem C8_overlap_prefix_witness:
  "(0 :: int) < 3 \<and> 1 < length [''ab cd'', ''XYZW'']
   \<and> applyOverlap [''ab cd'', ''XYZW''] 3 ! 1 = '' cd XYZW''
   \<and> applyOverlap [''hello world'', ''XYZW''] 8 ! 1 = ''world XYZW''"
  using C8_overlap_prefix [of 3 1 "[''ab cd'', ''XYZW'']"]
        C8_overlap_prefix [of 8 1 "[''hello world'', ''XYZW'']"]
  by simp

section \<open>The sync manager: fast path and bookkeeping\<close>

lemma new_Set_set [simp]: "set (new_Set xs) = set xs"
  by (simp add: new_Set_def)

lemma sync_fast_path:
  "lastDocHash mgr = Some (sha256 docText) \<Longrightarrow>
   syncIfNeeded ar X sha256 mgr docText copts hopts st = (Inr False, mgr, st)"
  by (simp add: syncIfNeeded_def hashDocument_def)

lemma sync_result_cases:
  assumes "syncIfNeeded ar X sha256 mgr docText copts hopts st = (r, mgr', st')"
  shows "(r = Inr False \<and> mgr' = mgr \<and> st' = st \<and> lastDocHash mgr = Some (sha256 docText))
       \<or> (\<exists>e. r = Inl e \<and> storedHashes mgr' = storedHashes mgr \<and> lastDocHash mgr' = lastDocHash mgr)
       \<or> (r = Inr True \<and> lastDocHash mgr' = Some (sha256 docText))"
  using assms
  by (auto simp: syncIfNeeded_def hashDocument_def Let_def
           split: if_splits prod.splits sum.splits)

text \<open>
  Claim C2.  If \<open>syncIfNeeded(text)\<close> completes without an error, a second call with the
  identical text returns \<open>false\<close>; it leaves the manager, the outside world and the log of
  external calls as they are, so it calls neither the embedder nor the vector store.  This
  holds for any options and any state of the world at the second call.
\<close>

theorem C2_second_sync_fast_path:
  assumes "syncIfNeeded ar X sha256 mgr docText copts hopts st = (Inr b, mgr', st')"
  shows "syncIfNeeded ar X sha256 mgr' docText copts' hopts' st'' = (Inr False, mgr', st'')"
proof -
  from sync_result_cases [OF assms] have "lastDocHash mgr' = Some (sha256 docText)"
    by auto
  then show ?thesis by (rule sync_fast_path)
qed


lemma accepting_simps:
  "embedBatch accepting texts w = (Some (map (\<lambda>t. [0]) texts), w)"
  "vdb_insert accepting records w = (True, w)"
  "vdb_reset accepting w = (True, w)"
  by (simp_all add: accepting_def)

lemma hello_headings: "extractHeadings ''Hello world.'' = []" by code_simp
lemma hello_paragraphs: "length (splitParagraphs ''Hello world.'') = 1" by code_simp

lemma hello_hierarchy:
  "\<exists>ol ds ss.
     extractHierarchy ar ''Hello world.'' (Some X) no_hierarchy_options st
       = (Inr \<lparr> headings = [HeadingNode (Suc 0) ''Section 1 of 1'' 0 12 []], outline = ol,
                 documentSummary = ds, sectionSummaries = ss, strategy = EmbeddingSimilarity \<rparr>, st)"
  by (simp add: extractHierarchy_def detectSectionsByEmbedding_def hello_headings hello_paragraphs Let_def)

lemma hello_chunks:
  "chunkWithHierarchy sha256 ''Hello world.''
     \<lparr> headings = [HeadingNode (Suc 0) ''Section 1 of 1'' 0 12 []], outline = ol,
       documentSummary = ds, sectionSummaries = ss, strategy = EmbeddingSimilarity \<rparr> no_chunk_options
   = [\<lparr>c_index = 0, c_text = ''Hello world.'', c_start = 0, c_end = 12,
        c_hash = sha256 ''Hello world.'',
        c_sectionTitle = Some ''Section 1 of 1'',
        c_sectionPath = Some ''Section 1 of 1'',
        c_contextPrefix = Some ''[Section 1 of 1] ''\<rparr>]"
  by code_simp

lemma hello_sync:
  "\<exists>m. syncIfNeeded real_arith accepting plain_digest new_manager ''Hello world.'' no_chunk_options
          no_hierarchy_options ((), [])
        = (Inr True, m,
           ((), [EmbedBatch [''Hello world.''],
                 Insert [\<lparr> cr_text = ''Hello world.'', cr_chunkHash = ''Hello world.'',
                           cr_chunkIndex = 0, cr_start = 0, cr_end = 12,
                           cr_sectionTitle = ''Section 1 of 1'', cr_sectionPath = ''Section 1 of 1'',
                           cr_contextPrefix = ''[Section 1 of 1] '', cr_vector = Some [0] \<rparr>]]))
      \<and> storedHashes m = [''Hello world.''] \<and> lastDocHash m = Some ''Hello world.''"
proof -
  from hello_hierarchy [of real_arith accepting "((), [])"] obtain ol ds ss where
    hier: "extractHierarchy real_arith ''Hello world.'' (Some accepting) no_hierarchy_options ((), [])
       = (Inr \<lparr> headings = [HeadingNode (Suc 0) ''Section 1 of 1'' 0 12 []], outline = ol,
                 documentSummary = ds, sectionSummaries = ss, strategy = EmbeddingSimilarity \<rparr>, ((), []))"
    by blast
  show ?thesis
    by (simp add: syncIfNeeded_def hashDocument_def new_manager_def hier hello_chunks Let_def plain_digest_def
          new_Set_def embedAndInsert_def do_embedBatch_def do_insert_def accepting_simps
          records_of_def record_of_def nth_opt_def)
qed




theorem C2_second_sync_fast_path_witness:
  "\<exists>m s. syncIfNeeded real_arith accepting plain_digest new_manager ''Hello world.'' no_chunk_options
            no_hierarchy_options ((), []) = (Inr True, m, s)
        \<and> syncIfNeeded real_arith accepting plain_digest m ''Hello world.'' no_chunk_options
            no_hierarchy_options s = (Inr False, m, s)"
proof -
  from hello_sync obtain m s where
    first: "syncIfNeeded real_arith accepting plain_digest new_manager ''Hello world.'' no_chunk_options
              no_hierarchy_options ((), []) = (Inr True, m, s)"
    by blast
  from C2_second_sync_fast_path [OF first] first show ?thesis by blast
qed


section \<open>The sync manager: the log of external calls\<close>

lemma do_embedBatch_log:
  "do_embedBatch X texts st = (r, st') \<Longrightarrow> snd st' = snd st @ [EmbedBatch texts]"
  by (auto simp: do_embedBatch_def split: prod.splits)

lemma do_insert_log:
  "do_insert X records st = (r, st') \<Longrightarrow> snd st' = snd st @ [Insert records]"
  by (auto simp: do_insert_def split: prod.splits)

lemma do_reset_log:
  "do_reset X st = (r, st') \<Longrightarrow> snd st' = snd st @ [Reset]"
  by (auto simp: do_reset_def split: prod.splits)


lemma records_of_length [simp]: "length (records_of chunks vectors) = length chunks"
  by (simp add: records_of_def)

lemma records_of_hashes [simp]: "map cr_chunkHash (records_of chunks vectors) = map c_hash chunks"
  by (auto simp: records_of_def record_of_def intro!: nth_equalityI)

lemma records_of_texts [simp]: "map cr_text (records_of chunks vectors) = map c_text chunks"
  by (auto simp: records_of_def record_of_def intro!: nth_equalityI)


text \<open>What the calls do to the pair of the world and the log.\<close>

lemma do_embedBatch_eq:
  "do_embedBatch X texts st =
     (case embedBatch X texts (fst st) of
        (None, w') \<Rightarrow> (Inl EmbedderError, (w', snd st @ [EmbedBatch texts]))
      | (Some vectors, w') \<Rightarrow> (Inr vectors, (w', snd st @ [EmbedBatch texts])))"
  by (simp add: do_embedBatch_def split: prod.splits option.splits)

lemma detectSections_state:
  assumes "detectSectionsByEmbedding ar txt X hopts st = (r, st')"
  shows "st' = (if 1 < length (splitParagraphs txt)
                then (snd (embedBatch X (map p_text (splitParagraphs txt)) (fst st)),
                      snd st @ [EmbedBatch (map p_text (splitParagraphs txt))])
                else st)"
  using assms
  by (auto simp: detectSectionsByEmbedding_def Let_def not_less do_embedBatch_def
           split: if_splits prod.splits sum.splits)

lemma extractHierarchy_state:
  assumes "extractHierarchy ar txt (Some X) hopts st = (r, st')"
  shows "st' = (if extractHeadings txt = [] \<and> 1 < length (splitParagraphs txt)
                then (snd (embedBatch X (map p_text (splitParagraphs txt)) (fst st)),
                      snd st @ [EmbedBatch (map p_text (splitParagraphs txt))])
                else st)"
proof (cases "extractHeadings txt = []")
  case False
  with assms show ?thesis by (auto simp: extractHierarchy_def Let_def)
next
  case True
  obtain r1 st1 where d: "detectSectionsByEmbedding ar txt X hopts st = (r1, st1)"
    by (cases "detectSectionsByEmbedding ar txt X hopts st")
  with assms True have "st' = st1"
    by (auto simp: extractHierarchy_def Let_def split: sum.splits)
  with detectSections_state [OF d] True show ?thesis by simp
qed

lemma embedAndInsert_eq:
  assumes "chunks \<noteq> []"
  shows "embedAndInsert X chunks st =
     (case embedBatch X (map c_text chunks) (fst st) of
        (None, w2) \<Rightarrow> (Inl EmbedderError, (w2, snd st @ [EmbedBatch (map c_text chunks)]))
      | (Some vectors, w2) \<Rightarrow>
          (case vdb_insert X (records_of chunks vectors) w2 of
             (ok, w3) \<Rightarrow>
               (if ok then Inr () else Inl VectorStoreError,
                (w3, snd st @ [EmbedBatch (map c_text chunks),
                               Insert (records_of chunks vectors)]))))"
  using assms
  by (simp add: embedAndInsert_def do_embedBatch_eq do_insert_def
           split: prod.splits option.splits)

text \<open>
  Claim C1, amended.  Take a sync that passes the document-hash test, whose hierarchy
  extraction succeeds, and in which every stored hash is among the hashes of the current
  chunks.  It never calls \<open>Reset\<close>.  Hierarchy extraction calls \<open>EmbedBatch\<close> once, on the
  paragraph texts, exactly when the text has no heading and more than one paragraph.
  After that, if no chunk has a new hash there is no external call at all; otherwise
  there is exactly one \<open>EmbedBatch\<close> call, on exactly the texts of the chunks whose hashes
  were not stored, followed (when the embedder succeeds) by one \<open>Insert\<close> of their records,
  which carry the vectors that the embedder returned.  The theorem gives the result, the
  world and the log of the sync in terms of the embedder and the store.
\<close>

theorem C1_append_only_sync:
  assumes run: "syncIfNeeded ar X sha256 mgr docText copts hopts st = (r, mgr', st')"
      and notfast: "lastDocHash mgr \<noteq> Some (sha256 docText)"
      and hier: "extractHierarchy ar docText (Some X) hopts st = (Inr hierarchy, st1)"
      and chunks: "chunks = chunkWithHierarchy sha256 docText hierarchy copts"
      and adds: "set (storedHashes mgr) \<subseteq> c_hash ` set chunks"
      and toInsert: "toInsert = filter (\<lambda>c. c_hash c \<notin> set (storedHashes mgr)) chunks"
      and ptexts: "ptexts = map p_text (splitParagraphs docText)"
  shows "st1 = (if extractHeadings docText = [] \<and> 1 < length (splitParagraphs docText)
                then (snd (embedBatch X ptexts (fst st)), snd st @ [EmbedBatch ptexts])
                else st)
         \<and> (r, st') =
             (if toInsert = [] then (Inr True, st1)
              else
                (case embedBatch X (map c_text toInsert) (fst st1) of
                   (None, w2) \<Rightarrow>
                     (Inl EmbedderError, (w2, snd st1 @ [EmbedBatch (map c_text toInsert)]))
                 | (Some vectors, w2) \<Rightarrow>
                     (case vdb_insert X (records_of toInsert vectors) w2 of
                        (ok, w3) \<Rightarrow>
                          (if ok then Inr True else Inl VectorStoreError,
                           (w3, snd st1 @ [EmbedBatch (map c_text toInsert),
                                           Insert (records_of toInsert vectors)])))))
         \<and> (\<exists>calls. snd st' = snd st @ calls \<and> Reset \<notin> set calls)"
proof -
  from adds have toDelete:
    "filter (\<lambda>h. h \<notin> set (new_Set (map c_hash chunks))) (storedHashes mgr) = []"
    by (auto simp: filter_empty_conv)
  have st1: "st1 = (if extractHeadings docText = [] \<and> 1 < length (splitParagraphs docText)
                then (snd (embedBatch X ptexts (fst st)), snd st @ [EmbedBatch ptexts])
                else st)"
    using extractHierarchy_state [OF hier] ptexts by simp
  then have log1: "\<exists>calls. snd st1 = snd st @ calls \<and> Reset \<notin> set calls"
    by (auto split: if_splits)
  show ?thesis
  proof (cases "toInsert = []")
    case True
    with run notfast hier chunks toDelete toInsert have "r = Inr True" "st' = st1"
      by (auto simp: syncIfNeeded_def hashDocument_def Let_def split: sum.splits)
    with st1 log1 True show ?thesis by simp
  next
    case False
    let ?res = "embedAndInsert X toInsert st1"
    from run notfast hier chunks toDelete toInsert False
    have "(r, st') = (case ?res of (Inl e, st2) \<Rightarrow> (Inl e, st2) | (Inr u, st2) \<Rightarrow> (Inr True, st2))"
      by (auto simp: syncIfNeeded_def hashDocument_def Let_def split: sum.splits prod.splits)
    then have eq: "(r, st') =
             (case embedBatch X (map c_text toInsert) (fst st1) of
                   (None, w2) \<Rightarrow>
                     (Inl EmbedderError, (w2, snd st1 @ [EmbedBatch (map c_text toInsert)]))
                 | (Some vectors, w2) \<Rightarrow>
                     (case vdb_insert X (records_of toInsert vectors) w2 of
                        (ok, w3) \<Rightarrow>
                          (if ok then Inr True else Inl VectorStoreError,
                           (w3, snd st1 @ [EmbedBatch (map c_text toInsert),
                                           Insert (records_of toInsert vectors)]))))"
      unfolding embedAndInsert_eq [OF False]
      by (auto split: prod.splits option.splits if_splits)
    then have "\<exists>calls. snd st' = snd st1 @ calls \<and> Reset \<notin> set calls"
      by (auto split: prod.splits option.splits if_splits)
    with log1 have "\<exists>calls. snd st' = snd st @ calls \<and> Reset \<notin> set calls"
      by (metis append.assoc set_append Un_iff)
    with st1 eq False show ?thesis by simp
  qed
qed

lemma fullResync_ok:
  assumes ok: "fullResync X stored chunks st = (Inr u, st')"
      and new: "newChunks = filter (\<lambda>c. c_hash c \<notin> set stored) chunks"
      and old: "existingChunks = filter (\<lambda>c. c_hash c \<in> set stored) chunks"
  shows "\<exists>newVectors existingVectors w1 w2 w3 w4.
           (if newChunks = [] then newVectors = [] \<and> w1 = fst st
            else embedBatch X (map c_text newChunks) (fst st) = (Some newVectors, w1))
         \<and> (if existingChunks = [] then existingVectors = [] \<and> w2 = w1
            else embedBatch X (map c_text existingChunks) w1 = (Some existingVectors, w2))
         \<and> vdb_reset X w2 = (True, w3)
         \<and> (if chunks = [] then w4 = w3
            else vdb_insert X (records_of newChunks newVectors
                               @ records_of existingChunks existingVectors) w3 = (True, w4))
         \<and> st' = (w4, snd st
                    @ (if newChunks = [] then [] else [EmbedBatch (map c_text newChunks)])
                    @ (if existingChunks = [] then []
                       else [EmbedBatch (map c_text existingChunks)])
                    @ [Reset]
                    @ (if chunks = [] then []
                       else [Insert (records_of newChunks newVectors
                                     @ records_of existingChunks existingVectors)]))"
proof -
  obtain r1 st1 where e1:
    "(if newChunks \<noteq> [] then do_embedBatch X (map c_text newChunks) st else (Inr [], st))
     = (r1, st1)"
    by (cases "(if newChunks \<noteq> [] then do_embedBatch X (map c_text newChunks) st
                else (Inr [], st))")
  obtain r2 st2 where e2:
    "(if existingChunks \<noteq> [] then do_embedBatch X (map c_text existingChunks) st1
      else (Inr [], st1)) = (r2, st2)"
    by (cases "(if existingChunks \<noteq> [] then do_embedBatch X (map c_text existingChunks) st1
                else (Inr [], st1))")
  obtain r3 st3 where e3: "do_reset X st2 = (r3, st3)"
    by (cases "do_reset X st2")
  from ok e1 obtain nv where r1: "r1 = Inr nv"
    by (cases r1) (simp_all add: fullResync_def Let_def new [symmetric] old [symmetric])
  from ok e1 e2 r1 obtain ev where r2: "r2 = Inr ev"
    by (cases r2) (simp_all add: fullResync_def Let_def new [symmetric] old [symmetric])
  from ok e1 e2 e3 r1 r2 have r3: "r3 = Inr ()"
    by (cases r3) (simp_all add: fullResync_def Let_def new [symmetric] old [symmetric])
  have empty: "(records_of newChunks nv @ records_of existingChunks ev = []) = (chunks = [])"
  proof -
    have "length (records_of newChunks nv @ records_of existingChunks ev) = length chunks"
      using sum_length_filter_compl [of "\<lambda>c. c_hash c \<in> set stored" chunks] new old by simp
    then show ?thesis by (metis length_0_conv)
  qed
  from ok e1 e2 e3 r1 r2 r3 empty
  have e4: "(if chunks = [] then (Inr (), st3)
             else do_insert X (records_of newChunks nv @ records_of existingChunks ev) st3)
            = (Inr u, st')"
    by (auto simp: fullResync_def Let_def new [symmetric] old [symmetric] split: if_splits)
  from e1 r1 have s1:
    "if newChunks = [] then nv = [] \<and> st1 = st
     else embedBatch X (map c_text newChunks) (fst st) = (Some nv, fst st1)
          \<and> snd st1 = snd st @ [EmbedBatch (map c_text newChunks)]"
    by (auto simp: do_embedBatch_eq split: if_splits prod.splits option.splits)
  from e2 r2 have s2:
    "if existingChunks = [] then ev = [] \<and> st2 = st1
     else embedBatch X (map c_text existingChunks) (fst st1) = (Some ev, fst st2)
          \<and> snd st2 = snd st1 @ [EmbedBatch (map c_text existingChunks)]"
    by (auto simp: do_embedBatch_eq split: if_splits prod.splits option.splits)
  from e3 r3 have s3: "vdb_reset X (fst st2) = (True, fst st3) \<and> snd st3 = snd st2 @ [Reset]"
    by (auto simp: do_reset_def split: if_splits prod.splits)
  from e4 have s4:
    "if chunks = [] then st' = st3
     else vdb_insert X (records_of newChunks nv @ records_of existingChunks ev) (fst st3)
            = (True, fst st')
          \<and> snd st' = snd st3
                @ [Insert (records_of newChunks nv @ records_of existingChunks ev)]"
    by (auto simp: do_insert_def split: if_splits prod.splits)
  have st': "st' = (fst st', snd st
                    @ (if newChunks = [] then [] else [EmbedBatch (map c_text newChunks)])
                    @ (if existingChunks = [] then []
                       else [EmbedBatch (map c_text existingChunks)])
                    @ [Reset]
                    @ (if chunks = [] then []
                       else [Insert (records_of newChunks nv
                                     @ records_of existingChunks ev)]))"
    using s1 s2 s3 s4 by (cases st') (auto split: if_splits)
  have a: "if newChunks = [] then nv = [] \<and> fst st1 = fst st
           else embedBatch X (map c_text newChunks) (fst st) = (Some nv, fst st1)"
    using s1 by (auto split: if_splits)
  have b: "if existingChunks = [] then ev = [] \<and> fst st2 = fst st1
           else embedBatch X (map c_text existingChunks) (fst st1) = (Some ev, fst st2)"
    using s2 by (auto split: if_splits)
  have c: "vdb_reset X (fst st2) = (True, fst st3)" using s3 by simp
  have d: "if chunks = [] then fst st' = fst st3
           else vdb_insert X (records_of newChunks nv @ records_of existingChunks ev) (fst st3)
                  = (True, fst st')"
    using s4 by (auto split: if_splits)
  from a b c d st' show ?thesis by blast
qed

text \<open>
  Claim C3.  In a sync that passes the document-hash test and finds a stored chunk hash
  that is absent from the current chunks, and that completes, the manager runs, after
  hierarchy extraction and in this order: the embedder on the texts of the chunks with
  new hashes (when there are any), the embedder on the texts of the chunks whose hashes
  were stored (when there are any), \<open>Reset\<close> of the store, and \<open>Insert\<close> of one record per
  current chunk (when there is any chunk), each record carrying the vector that the
  embedder returned for its chunk.  Every call acts on the world the previous one left,
  and every one of them succeeded.  So all current chunks are embedded again, the store
  is reset, and then all of them are inserted.
\<close>

theorem C3_deletion_full_resync:
  assumes run: "syncIfNeeded ar X sha256 mgr docText copts hopts st = (Inr b, mgr', st')"
      and notfast: "lastDocHash mgr \<noteq> Some (sha256 docText)"
      and hier: "extractHierarchy ar docText (Some X) hopts st = (Inr hierarchy, st1)"
      and chunks: "chunks = chunkWithHierarchy sha256 docText hierarchy copts"
      and del: "\<exists>h \<in> set (storedHashes mgr). h \<notin> c_hash ` set chunks"
      and new: "newChunks = filter (\<lambda>c. c_hash c \<notin> set (storedHashes mgr)) chunks"
      and old: "existingChunks = filter (\<lambda>c. c_hash c \<in> set (storedHashes mgr)) chunks"
  shows "\<exists>newVectors existingVectors records w1 w2 w3 w4.
           (if newChunks = [] then newVectors = [] \<and> w1 = fst st1
            else embedBatch X (map c_text newChunks) (fst st1) = (Some newVectors, w1))
         \<and> (if existingChunks = [] then existingVectors = [] \<and> w2 = w1
            else embedBatch X (map c_text existingChunks) w1 = (Some existingVectors, w2))
         \<and> vdb_reset X w2 = (True, w3)
         \<and> records = records_of newChunks newVectors @ records_of existingChunks existingVectors
         \<and> (if chunks = [] then w4 = w3 else vdb_insert X records w3 = (True, w4))
         \<and> st' = (w4, snd st1
                    @ (if newChunks = [] then [] else [EmbedBatch (map c_text newChunks)])
                    @ (if existingChunks = [] then []
                       else [EmbedBatch (map c_text existingChunks)])
                    @ [Reset]
                    @ (if chunks = [] then [] else [Insert records]))
         \<and> length records = length chunks
         \<and> set (map cr_chunkHash records) = c_hash ` set chunks
         \<and> b = True
         \<and> storedHashes mgr' = new_Set (map c_hash chunks)"
proof -
  from del have toDelete:
    "filter (\<lambda>h. h \<notin> set (new_Set (map c_hash chunks))) (storedHashes mgr) \<noteq> []"
    by (auto simp: filter_empty_conv)
  obtain r2 st2 where full: "fullResync X (storedHashes mgr) chunks st1 = (r2, st2)"
    by (cases "fullResync X (storedHashes mgr) chunks st1")
  from run notfast hier chunks toDelete full
  have "r2 = Inr ()" and "st' = st2" and b: "b = True"
    and stored: "storedHashes mgr' = new_Set (map c_hash chunks)"
    by (auto simp: syncIfNeeded_def hashDocument_def Let_def split: sum.splits)
  with full have "fullResync X (storedHashes mgr) chunks st1 = (Inr (), st')" by simp
  from fullResync_ok [OF this new old] obtain nv ev w1 w2 w3 w4 where
    a1: "if newChunks = [] then nv = [] \<and> w1 = fst st1
         else embedBatch X (map c_text newChunks) (fst st1) = (Some nv, w1)"
    and a2: "if existingChunks = [] then ev = [] \<and> w2 = w1
         else embedBatch X (map c_text existingChunks) w1 = (Some ev, w2)"
    and a3: "vdb_reset X w2 = (True, w3)"
    and a4: "if chunks = [] then w4 = w3
         else vdb_insert X (records_of newChunks nv @ records_of existingChunks ev) w3 = (True, w4)"
    and a5: "st' = (w4, snd st1
                    @ (if newChunks = [] then [] else [EmbedBatch (map c_text newChunks)])
                    @ (if existingChunks = [] then []
                       else [EmbedBatch (map c_text existingChunks)])
                    @ [Reset]
                    @ (if chunks = [] then []
                       else [Insert (records_of newChunks nv @ records_of existingChunks ev)]))"
    by blast
  have len: "length (records_of newChunks nv @ records_of existingChunks ev) = length chunks"
    using sum_length_filter_compl [of "\<lambda>c. c_hash c \<in> set (storedHashes mgr)" chunks] new old
    by simp
  have hashes: "set (map cr_chunkHash (records_of newChunks nv @ records_of existingChunks ev))
                = c_hash ` set chunks"
    using new old by auto
  from a1 a2 a3 a4 a5 len hashes b stored show ?thesis by blast
qed

lemma section_title_1_1: "section_title (Suc 0) (Suc 0) = ''Section 1 of 1''" by code_simp

lemma hello_only_headings: "extractHeadings ''Hello'' = []" by code_simp
lemma hello_only_paragraphs: "length (splitParagraphs ''Hello'') = 1" by code_simp
lemma hello_only_outline:
  "generateOutline [HeadingNode (Suc 0) ''Section 1 of 1'' 0 5 []] 6 [] = ''1. Section 1 of 1''"
  by code_simp
lemma hello_only_summary: "generateDocSummary ''Hello'' 3 = ''Hello''" by code_simp
lemma hello_only_sections:
  "generateSectionSummaries ''Hello'' (flattenTopLevel [HeadingNode (Suc 0) ''Section 1 of 1'' 0 5 []]) 1
   = [\<lparr> s_title = ''Section 1 of 1'', s_summary = ''Hello'', s_startOffset = 0, s_endOffset = 5 \<rparr>]"
  by code_simp

lemma hello_only_hierarchy:
  "extractHierarchy ar ''Hello'' (Some X) no_hierarchy_options st
       = (Inr \<lparr> headings = [HeadingNode (Suc 0) ''Section 1 of 1'' 0 5 []],
                outline = ''1. Section 1 of 1'',
                documentSummary = ''Hello'',
                sectionSummaries =
                  [\<lparr> s_title = ''Section 1 of 1'', s_summary = ''Hello'',
                     s_startOffset = 0, s_endOffset = 5 \<rparr>],
                 strategy = EmbeddingSimilarity \<rparr>, st)"
  apply (simp only: extractHierarchy_def detectSectionsByEmbedding_def hello_only_headings hello_only_paragraphs Let_def
      resolveOptions_def no_hierarchy_options_def)
  apply (simp add: hello_only_outline hello_only_summary hello_only_sections del: flattenTopLevel_def)
  done

lemma hello_only_chunks:
  "chunkWithHierarchy plain_digest ''Hello''
     \<lparr> headings = [HeadingNode (Suc 0) ''Section 1 of 1'' 0 5 []], outline = ol,
       documentSummary = ds, sectionSummaries = ss, strategy = EmbeddingSimilarity \<rparr>
     small_chunk_options
   = [\<lparr>c_index = 0, c_text = ''Hello'', c_start = 0, c_end = 5,
        c_hash = ''Hello'',
        c_sectionTitle = Some ''Section 1 of 1'',
        c_sectionPath = Some ''Section 1 of 1'',
        c_contextPrefix = Some ''[Section 1 of 1] ''\<rparr>]"
  by code_simp

lemma hello_only_sync:
  "syncIfNeeded real_arith accepting plain_digest new_manager ''Hello'' small_chunk_options
      no_hierarchy_options ((), [])
   = (Inr True, hello_manager,
      ((), [EmbedBatch [''Hello''],
            Insert [\<lparr> cr_text = ''Hello'', cr_chunkHash = ''Hello'',
                      cr_chunkIndex = 0, cr_start = 0, cr_end = 5,
                      cr_sectionTitle = ''Section 1 of 1'', cr_sectionPath = ''Section 1 of 1'',
                      cr_contextPrefix = ''[Section 1 of 1] '', cr_vector = Some [0] \<rparr>]]))"
  by (simp add: syncIfNeeded_def hashDocument_def new_manager_def hello_manager_def
        hello_only_hierarchy hello_only_chunks Let_def plain_digest_def
        new_Set_def embedAndInsert_def do_embedBatch_def do_insert_def accepting_simps
        records_of_def record_of_def nth_opt_def)

lemma hw_headings: "extractHeadings ''Hello\<newline>\<newline>World'' = []" by code_simp
lemma hw_paragraphs: "splitParagraphs ''Hello\<newline>\<newline>World'' = 
  [\<lparr> p_text = ''Hello'', p_start = 0, p_end = 5 \<rparr>, \<lparr> p_text = ''World'', p_start = 7, p_end = 12 \<rparr>]" by code_simp

lemma hw_hierarchy:
  "\<exists>ol ds ss.
     extractHierarchy ar ''Hello\<newline>\<newline>World'' (Some accepting) no_hierarchy_options ((), lg)
       = (Inr \<lparr> headings = [HeadingNode (Suc 0) ''Section 1 of 1'' 0 12 []], outline = ol,
                 documentSummary = ds, sectionSummaries = ss, strategy = EmbeddingSimilarity \<rparr>, ((), lg @ [EmbedBatch [''Hello'', ''World'']]))"
  by (simp add: extractHierarchy_def detectSectionsByEmbedding_def hw_headings hw_paragraphs Let_def
     do_embedBatch_def accepting_simps similarities_of_def cosineSimilarity_def nth_opt_def resolveOptions_def no_hierarchy_options_def
     dynamic_threshold_def topic_boundaries_def mergeTinySections_def sections_of_boundaries_def section_title_1_1)

lemma hw_chunks:
  "chunkWithHierarchy plain_digest ''Hello\<newline>\<newline>World''
     \<lparr> headings = [HeadingNode (Suc 0) ''Section 1 of 1'' 0 12 []], outline = ol,
       documentSummary = ds, sectionSummaries = ss, strategy = EmbeddingSimilarity \<rparr>
     small_chunk_options
   = [\<lparr>c_index = 0, c_text = ''Hello'', c_start = 0, c_end = 5,
        c_hash = ''Hello'', c_sectionTitle = Some ''Section 1 of 1'',
        c_sectionPath = Some ''Section 1 of 1'',
        c_contextPrefix = Some ''[Section 1 of 1] ''\<rparr>,
     \<lparr>c_index = 1, c_text = ''World'', c_start = 7, c_end = 12,
        c_hash = ''World'', c_sectionTitle = Some ''Section 1 of 1'',
        c_sectionPath = Some ''Section 1 of 1'',
        c_contextPrefix = Some ''[Section 1 of 1] ''\<rparr>]"
  by code_simp

lemma hw_sync:
  "fst (syncIfNeeded real_arith accepting plain_digest hello_manager ''Hello\<newline>\<newline>World'' small_chunk_options
      no_hierarchy_options ((), [])) = Inr True
   \<and> storedHashes (fst (snd (syncIfNeeded real_arith accepting plain_digest hello_manager ''Hello\<newline>\<newline>World''
        small_chunk_options no_hierarchy_options ((), [])))) = [''Hello'', ''World'']
   \<and> snd (snd (syncIfNeeded real_arith accepting plain_digest hello_manager ''Hello\<newline>\<newline>World'' small_chunk_options
      no_hierarchy_options ((), [])))
     = ((), [EmbedBatch [''Hello'', ''World''],
             EmbedBatch [''World''],
             Insert [\<lparr> cr_text = ''World'', cr_chunkHash = ''World'',
                      cr_chunkIndex = 1, cr_start = 7, cr_end = 12,
                      cr_sectionTitle = ''Section 1 of 1'', cr_sectionPath = ''Section 1 of 1'',
                      cr_contextPrefix = ''[Section 1 of 1] '', cr_vector = Some [0] \<rparr>]])"
proof -
  from hw_hierarchy [of real_arith "[]"] obtain ol ds ss where
    hier: "extractHierarchy real_arith ''Hello\<newline>\<newline>World'' (Some accepting) no_hierarchy_options ((), [])
       = (Inr \<lparr> headings = [HeadingNode (Suc 0) ''Section 1 of 1'' 0 12 []], outline = ol,
                 documentSummary = ds, sectionSummaries = ss, strategy = EmbeddingSimilarity \<rparr>, ((), [EmbedBatch [''Hello'', ''World'']]))"
    by auto
  show ?thesis
  by (simp add: syncIfNeeded_def hashDocument_def hello_manager_def
        hier hw_chunks Let_def plain_digest_def
        new_Set_def embedAndInsert_def do_embedBatch_def do_insert_def accepting_simps
        records_of_def record_of_def nth_opt_def)
qed


text \<open>
  Claim C1, as stated, fails.  With \<open>maxChunkSize = 5\<close> and \<open>overlap = 0\<close>, the sync of
  \<open>"Hello"\<close> stores the one hash of the chunk \<open>"Hello"\<close>.  The sync of \<open>"Hello\n\nWorld"\<close> has
  the chunks \<open>"Hello"\<close> and \<open>"World"\<close>, so it only adds a chunk; it calls \<open>EmbedBatch\<close> twice:
  first, during hierarchy extraction, on the two paragraphs (one of them the text of a
  chunk that is already stored), then on the new chunk.
\<close>

theorem C1_exactly_once_counterexample:
  "syncIfNeeded real_arith accepting plain_digest new_manager ''Hello'' small_chunk_options
      no_hierarchy_options ((), [])
   = (Inr True, hello_manager,
      ((), [EmbedBatch [''Hello''],
            Insert [\<lparr> cr_text = ''Hello'', cr_chunkHash = ''Hello'',
                      cr_chunkIndex = 0, cr_start = 0, cr_end = 5,
                      cr_sectionTitle = ''Section 1 of 1'', cr_sectionPath = ''Section 1 of 1'',
                      cr_contextPrefix = ''[Section 1 of 1] '', cr_vector = Some [0] \<rparr>]]))
   \<and> storedHashes hello_manager = [''Hello'']
   \<and> fst (syncIfNeeded real_arith accepting plain_digest hello_manager ''Hello\<newline>\<newline>World'' small_chunk_options
          no_hierarchy_options ((), [])) = Inr True
   \<and> storedHashes (fst (snd (syncIfNeeded real_arith accepting plain_digest hello_manager ''Hello\<newline>\<newline>World''
          small_chunk_options no_hierarchy_options ((), [])))) = [''Hello'', ''World'']
   \<and> snd (snd (syncIfNeeded real_arith accepting plain_digest hello_manager ''Hello\<newline>\<newline>World''
          small_chunk_options no_hierarchy_options ((), [])))
     = ((), [EmbedBatch [''Hello'', ''World''],
             EmbedBatch [''World''],
             Insert [\<lparr> cr_text = ''World'', cr_chunkHash = ''World'',
                      cr_chunkIndex = 1, cr_start = 7, cr_end = 12,
                      cr_sectionTitle = ''Section 1 of 1'', cr_sectionPath = ''Section 1 of 1'',
                      cr_contextPrefix = ''[Section 1 of 1] '', cr_vector = Some [0] \<rparr>]])"
  using hello_only_sync hw_sync by (simp add: hello_manager_def)

theorem C1_append_only_sync_witness:
  "fst (syncIfNeeded real_arith accepting plain_digest hello_manager ''Hello\<newline>\<newline>World''
          small_chunk_options no_hierarchy_options ((), [])) = Inr True
   \<and> snd (snd (syncIfNeeded real_arith accepting plain_digest hello_manager ''Hello\<newline>\<newline>World''
          small_chunk_options no_hierarchy_options ((), [])))
     = ((), [EmbedBatch [''Hello'', ''World''],
             EmbedBatch [''World''],
             Insert [\<lparr> cr_text = ''World'', cr_chunkHash = ''World'',
                      cr_chunkIndex = 1, cr_start = 7, cr_end = 12,
                      cr_sectionTitle = ''Section 1 of 1'', cr_sectionPath = ''Section 1 of 1'',
                      cr_contextPrefix = ''[Section 1 of 1] '', cr_vector = Some [0] \<rparr>]])"
proof -
  let ?sync = "syncIfNeeded real_arith accepting plain_digest hello_manager ''Hello\<newline>\<newline>World''
                 small_chunk_options no_hierarchy_options ((), [])"
  let ?hello = "\<lparr>c_index = 0, c_text = ''Hello'', c_start = 0, c_end = 5,
                   c_hash = ''Hello'', c_sectionTitle = Some ''Section 1 of 1'',
                   c_sectionPath = Some ''Section 1 of 1'',
                   c_contextPrefix = Some ''[Section 1 of 1] ''\<rparr>"
  let ?world = "\<lparr>c_index = 1, c_text = ''World'', c_start = 7, c_end = 12,
                   c_hash = ''World'', c_sectionTitle = Some ''Section 1 of 1'',
                   c_sectionPath = Some ''Section 1 of 1'',
                   c_contextPrefix = Some ''[Section 1 of 1] ''\<rparr>"
  from hw_hierarchy [of real_arith "[]"] obtain ol ds ss where
    hier: "extractHierarchy real_arith ''Hello\<newline>\<newline>World'' (Some accepting) no_hierarchy_options
             ((), [])
       = (Inr \<lparr> headings = [HeadingNode (Suc 0) ''Section 1 of 1'' 0 12 []], outline = ol,
                 documentSummary = ds, sectionSummaries = ss, strategy = EmbeddingSimilarity \<rparr>,
          ((), [EmbedBatch [''Hello'', ''World'']]))"
    by auto
  have run: "?sync = (fst ?sync, fst (snd ?sync), snd (snd ?sync))" by simp
  have notfast: "lastDocHash hello_manager \<noteq> Some (plain_digest ''Hello\<newline>\<newline>World'')"
    by (simp add: hello_manager_def plain_digest_def)
  note chunks = hw_chunks [of ol ds ss, symmetric]
  have adds: "set (storedHashes hello_manager) \<subseteq> c_hash ` set [?hello, ?world]"
    by (simp add: hello_manager_def)
  have toInsert: "[?world] = filter (\<lambda>c. c_hash c \<notin> set (storedHashes hello_manager))
                               [?hello, ?world]"
    by (simp add: hello_manager_def)
  have ptexts: "[''Hello'', ''World''] = map p_text (splitParagraphs ''Hello\<newline>\<newline>World'')"
    by (simp add: hw_paragraphs)
  note inst = C1_append_only_sync [OF run notfast hier chunks adds toInsert ptexts]
  from inst [THEN conjunct2, THEN conjunct1] show ?thesis
    by (simp add: accepting_simps records_of_def record_of_def nth_opt_def)
qed

lemma extractHierarchy_heading:
  assumes "extractHeadings txt \<noteq> []"
  shows "\<exists>ol ds ss.
     extractHierarchy ar txt emb hopts st
       = (Inr \<lparr> headings = buildHierarchyTree (extractHeadings txt) (int (length txt)),
                 outline = ol, documentSummary = ds, sectionSummaries = ss, strategy = Heading \<rparr>, st)"
  using assms by (simp add: extractHierarchy_def Let_def)

lemma ab_tree:
  "buildHierarchyTree (extractHeadings ''# A\<newline>alpha\<newline># B\<newline>beta'') (int (length ''# A\<newline>alpha\<newline># B\<newline>beta''))
   = [HeadingNode (Suc 0) ''A'' 0 10 [], HeadingNode (Suc 0) ''B'' 10 18 []]"
  by code_simp

lemma ac_tree:
  "buildHierarchyTree (extractHeadings ''# A\<newline>alpha\<newline># C\<newline>gamma'') (int (length ''# A\<newline>alpha\<newline># C\<newline>gamma''))
   = [HeadingNode (Suc 0) ''A'' 0 10 [], HeadingNode (Suc 0) ''C'' 10 19 []]"
  by code_simp

lemma ab_headings: "extractHeadings ''# A\<newline>alpha\<newline># B\<newline>beta'' \<noteq> []" by code_simp
lemma ac_headings: "extractHeadings ''# A\<newline>alpha\<newline># C\<newline>gamma'' \<noteq> []" by code_simp

lemma ab_chunks:
  "chunkWithHierarchy plain_digest ''# A\<newline>alpha\<newline># B\<newline>beta''
     \<lparr> headings = [HeadingNode (Suc 0) ''A'' 0 10 [], HeadingNode (Suc 0) ''B'' 10 18 []], outline = ol,
       documentSummary = ds, sectionSummaries = ss, strategy = Heading \<rparr>
     no_chunk_options
   = [\<lparr>c_index = 0, c_text = ''# A\<newline>alpha'', c_start = 0, c_end = 9,
      c_hash = ''# A\<newline>alpha'', c_sectionTitle = Some ''A'',
      c_sectionPath = Some ''A'', c_contextPrefix = Some ''[A] ''\<rparr>,
   \<lparr>c_index = Suc 0, c_text = ''# B\<newline>beta'', c_start = 10, c_end = 18,
      c_hash = ''# B\<newline>beta'', c_sectionTitle = Some ''B'',
      c_sectionPath = Some ''B'', c_contextPrefix = Some ''[B] ''\<rparr>]"
  by code_simp

lemma ac_chunks:
  "chunkWithHierarchy plain_digest ''# A\<newline>alpha\<newline># C\<newline>gamma''
     \<lparr> headings = [HeadingNode (Suc 0) ''A'' 0 10 [], HeadingNode (Suc 0) ''C'' 10 19 []], outline = ol,
       documentSummary = ds, sectionSummaries = ss, strategy = Heading \<rparr>
     no_chunk_options
   = [\<lparr>c_index = 0, c_text = ''# A\<newline>alpha'', c_start = 0, c_end = 9,
      c_hash = ''# A\<newline>alpha'', c_sectionTitle = Some ''A'',
      c_sectionPath = Some ''A'', c_contextPrefix = Some ''[A] ''\<rparr>,
   \<lparr>c_index = Suc 0, c_text = ''# C\<newline>gamma'', c_start = 10, c_end = 19,
      c_hash = ''# C\<newline>gamma'', c_sectionTitle = Some ''C'',
      c_sectionPath = Some ''C'', c_contextPrefix = Some ''[C] ''\<rparr>]"
  by code_simp

lemma storing_simps:
  "embedBatch storing texts w = (Some (map (\<lambda>t. [real (length t)]) texts), w)"
  "vdb_insert storing records w = (True, w @ records)"
  "vdb_reset storing w = (True, [])"
  by (simp_all add: storing_def)

lemma ab_sync:
  "\<exists>m. syncIfNeeded real_arith storing plain_digest new_manager ''# A\<newline>alpha\<newline># B\<newline>beta''
            no_chunk_options no_hierarchy_options ([], [])
         = (Inr True, m,
            ([\<lparr>cr_text = ''# A\<newline>alpha'', cr_chunkHash = ''# A\<newline>alpha'', cr_chunkIndex = 0,
      cr_start = 0, cr_end = 9, cr_sectionTitle = ''A'', cr_sectionPath = ''A'',
      cr_contextPrefix = ''[A] '', cr_vector = Some [9]\<rparr>,
              \<lparr>cr_text = ''# B\<newline>beta'', cr_chunkHash = ''# B\<newline>beta'', cr_chunkIndex = Suc 0,
      cr_start = 10, cr_end = 18, cr_sectionTitle = ''B'', cr_sectionPath = ''B'',
      cr_contextPrefix = ''[B] '', cr_vector = Some [8]\<rparr>],
             [EmbedBatch [''# A\<newline>alpha'', ''# B\<newline>beta''],
              Insert [\<lparr>cr_text = ''# A\<newline>alpha'', cr_chunkHash = ''# A\<newline>alpha'', cr_chunkIndex = 0,
      cr_start = 0, cr_end = 9, cr_sectionTitle = ''A'', cr_sectionPath = ''A'',
      cr_contextPrefix = ''[A] '', cr_vector = Some [9]\<rparr>,
              \<lparr>cr_text = ''# B\<newline>beta'', cr_chunkHash = ''# B\<newline>beta'', cr_chunkIndex = Suc 0,
      cr_start = 10, cr_end = 18, cr_sectionTitle = ''B'', cr_sectionPath = ''B'',
      cr_contextPrefix = ''[B] '', cr_vector = Some [8]\<rparr>]]))
         \<and> storedHashes m = [''# A\<newline>alpha'', ''# B\<newline>beta'']
         \<and> lastDocHash m = Some ''# A\<newline>alpha\<newline># B\<newline>beta''"
proof -
  from extractHierarchy_heading [OF ab_headings, of real_arith "Some storing" no_hierarchy_options "([], [])"]
  obtain ol ds ss where
    hier: "extractHierarchy real_arith ''# A\<newline>alpha\<newline># B\<newline>beta'' (Some storing) no_hierarchy_options ([], [])
       = (Inr \<lparr> headings = [HeadingNode (Suc 0) ''A'' 0 10 [], HeadingNode (Suc 0) ''B'' 10 18 []], outline = ol,
       documentSummary = ds, sectionSummaries = ss, strategy = Heading \<rparr>,
          ([], []))"
    unfolding ab_tree by blast
  show ?thesis
    by (simp add: syncIfNeeded_def hashDocument_def new_manager_def hier ab_chunks Let_def
          plain_digest_def new_Set_def embedAndInsert_def do_embedBatch_def do_insert_def
          records_of_def record_of_def nth_opt_def storing_simps)
qed

theorem C3_deletion_full_resync_witness:
  "\<exists>m w l.
     syncIfNeeded real_arith storing plain_digest new_manager ''# A\<newline>alpha\<newline># B\<newline>beta''
       no_chunk_options no_hierarchy_options ([], []) = (Inr True, m, (w, l))
     \<and> storedHashes m = [''# A\<newline>alpha'', ''# B\<newline>beta'']
     \<and> map cr_chunkHash w = [''# A\<newline>alpha'', ''# B\<newline>beta'']
     \<and> fst (syncIfNeeded real_arith storing plain_digest m ''# A\<newline>alpha\<newline># C\<newline>gamma''
            no_chunk_options no_hierarchy_options (w, l)) = Inr True
     \<and> storedHashes (fst (snd (syncIfNeeded real_arith storing plain_digest m ''# A\<newline>alpha\<newline># C\<newline>gamma''
            no_chunk_options no_hierarchy_options (w, l)))) = [''# A\<newline>alpha'', ''# C\<newline>gamma'']
     \<and> snd (snd (syncIfNeeded real_arith storing plain_digest m ''# A\<newline>alpha\<newline># C\<newline>gamma''
            no_chunk_options no_hierarchy_options (w, l)))
       = ([\<lparr>cr_text = ''# C\<newline>gamma'', cr_chunkHash = ''# C\<newline>gamma'', cr_chunkIndex = Suc 0,
      cr_start = 10, cr_end = 19, cr_sectionTitle = ''C'', cr_sectionPath = ''C'',
      cr_contextPrefix = ''[C] '', cr_vector = Some [9]\<rparr>,
           \<lparr>cr_text = ''# A\<newline>alpha'', cr_chunkHash = ''# A\<newline>alpha'', cr_chunkIndex = 0,
      cr_start = 0, cr_end = 9, cr_sectionTitle = ''A'', cr_sectionPath = ''A'',
      cr_contextPrefix = ''[A] '', cr_vector = Some [9]\<rparr>],
          l @ [EmbedBatch [''# C\<newline>gamma''], EmbedBatch [''# A\<newline>alpha''], Reset,
               Insert [\<lparr>cr_text = ''# C\<newline>gamma'', cr_chunkHash = ''# C\<newline>gamma'', cr_chunkIndex = Suc 0,
      cr_start = 10, cr_end = 19, cr_sectionTitle = ''C'', cr_sectionPath = ''C'',
      cr_contextPrefix = ''[C] '', cr_vector = Some [9]\<rparr>,
                       \<lparr>cr_text = ''# A\<newline>alpha'', cr_chunkHash = ''# A\<newline>alpha'', cr_chunkIndex = 0,
      cr_start = 0, cr_end = 9, cr_sectionTitle = ''A'', cr_sectionPath = ''A'',
      cr_contextPrefix = ''[A] '', cr_vector = Some [9]\<rparr>]])"
proof -
  let ?w = "[\<lparr>cr_text = ''# A\<newline>alpha'', cr_chunkHash = ''# A\<newline>alpha'', cr_chunkIndex = 0,
      cr_start = 0, cr_end = 9, cr_sectionTitle = ''A'', cr_sectionPath = ''A'',
      cr_contextPrefix = ''[A] '', cr_vector = Some [9]\<rparr>,
             \<lparr>cr_text = ''# B\<newline>beta'', cr_chunkHash = ''# B\<newline>beta'', cr_chunkIndex = Suc 0,
      cr_start = 10, cr_end = 18, cr_sectionTitle = ''B'', cr_sectionPath = ''B'',
      cr_contextPrefix = ''[B] '', cr_vector = Some [8]\<rparr>]"
  let ?l = "[EmbedBatch [''# A\<newline>alpha'', ''# B\<newline>beta''],
             Insert [\<lparr>cr_text = ''# A\<newline>alpha'', cr_chunkHash = ''# A\<newline>alpha'', cr_chunkIndex = 0,
      cr_start = 0, cr_end = 9, cr_sectionTitle = ''A'', cr_sectionPath = ''A'',
      cr_contextPrefix = ''[A] '', cr_vector = Some [9]\<rparr>,
                     \<lparr>cr_text = ''# B\<newline>beta'', cr_chunkHash = ''# B\<newline>beta'', cr_chunkIndex = Suc 0,
      cr_start = 10, cr_end = 18, cr_sectionTitle = ''B'', cr_sectionPath = ''B'',
      cr_contextPrefix = ''[B] '', cr_vector = Some [8]\<rparr>]]"
  from ab_sync obtain m where
    first: "syncIfNeeded real_arith storing plain_digest new_manager ''# A\<newline>alpha\<newline># B\<newline>beta''
              no_chunk_options no_hierarchy_options ([], []) = (Inr True, m, (?w, ?l))"
    and stored: "storedHashes m = [''# A\<newline>alpha'', ''# B\<newline>beta'']"
    and last: "lastDocHash m = Some ''# A\<newline>alpha\<newline># B\<newline>beta''"
    by blast
  let ?sync = "syncIfNeeded real_arith storing plain_digest m ''# A\<newline>alpha\<newline># C\<newline>gamma''
                 no_chunk_options no_hierarchy_options (?w, ?l)"
  let ?chA = "\<lparr>c_index = 0, c_text = ''# A\<newline>alpha'', c_start = 0, c_end = 9,
      c_hash = ''# A\<newline>alpha'', c_sectionTitle = Some ''A'',
      c_sectionPath = Some ''A'', c_contextPrefix = Some ''[A] ''\<rparr>"
  let ?chC = "\<lparr>c_index = Suc 0, c_text = ''# C\<newline>gamma'', c_start = 10, c_end = 19,
      c_hash = ''# C\<newline>gamma'', c_sectionTitle = Some ''C'',
      c_sectionPath = Some ''C'', c_contextPrefix = Some ''[C] ''\<rparr>"
  from extractHierarchy_heading [OF ac_headings, of real_arith "Some storing" no_hierarchy_options "(?w, ?l)"]
  obtain ol ds ss where
    hier: "extractHierarchy real_arith ''# A\<newline>alpha\<newline># C\<newline>gamma'' (Some storing) no_hierarchy_options (?w, ?l)
       = (Inr \<lparr> headings = [HeadingNode (Suc 0) ''A'' 0 10 [], HeadingNode (Suc 0) ''C'' 10 19 []], outline = ol,
       documentSummary = ds, sectionSummaries = ss, strategy = Heading \<rparr>,
          (?w, ?l))"
    unfolding ac_tree by blast
  have ok: "fst ?sync = Inr True"
    by (simp add: syncIfNeeded_def hashDocument_def hier ac_chunks Let_def stored last
          plain_digest_def new_Set_def fullResync_def do_embedBatch_def do_insert_def do_reset_def
          storing_simps)
  then have run: "?sync = (Inr True, fst (snd ?sync), snd (snd ?sync))"
    by (metis prod.collapse)
  have notfast: "lastDocHash m \<noteq> Some (plain_digest ''# A\<newline>alpha\<newline># C\<newline>gamma'')"
    by (simp add: last plain_digest_def)
  note chunks = ac_chunks [of ol ds ss, symmetric]
  have del: "\<exists>h \<in> set (storedHashes m). h \<notin> c_hash ` set [?chA, ?chC]"
    by (simp add: stored)
  have new: "[?chC] = filter (\<lambda>c. c_hash c \<notin> set (storedHashes m)) [?chA, ?chC]"
    by (simp add: stored)
  have old: "[?chA] = filter (\<lambda>c. c_hash c \<in> set (storedHashes m)) [?chA, ?chC]"
    by (simp add: stored)
  note inst = C3_deletion_full_resync [OF run notfast hier chunks del new old]
  then obtain newVectors existingVectors records w1 w2 w3 w4 where
    e1: "embedBatch storing (map c_text [?chC]) ?w = (Some newVectors, w1)"
    and e2: "embedBatch storing (map c_text [?chA]) w1 = (Some existingVectors, w2)"
    and e3: "vdb_reset storing w2 = (True, w3)"
    and recs: "records = records_of [?chC] newVectors @ records_of [?chA] existingVectors"
    and e4: "vdb_insert storing records w3 = (True, w4)"
    and st: "snd (snd ?sync) = (w4, ?l @ [EmbedBatch (map c_text [?chC]),
                 EmbedBatch (map c_text [?chA]), Reset, Insert records])"
    and sh: "storedHashes (fst (snd ?sync)) = new_Set (map c_hash [?chA, ?chC])"
    by auto
  from e1 have nv: "newVectors = [[9]]" by (simp add: storing_simps)
  from e2 have ev: "existingVectors = [[9]]" by (simp add: storing_simps)
  from e3 have w3: "w3 = []" by (simp add: storing_simps)
  from recs nv ev have records: "records = [\<lparr>cr_text = ''# C\<newline>gamma'', cr_chunkHash = ''# C\<newline>gamma'', cr_chunkIndex = Suc 0,
      cr_start = 10, cr_end = 19, cr_sectionTitle = ''C'', cr_sectionPath = ''C'',
      cr_contextPrefix = ''[C] '', cr_vector = Some [9]\<rparr>,
      \<lparr>cr_text = ''# A\<newline>alpha'', cr_chunkHash = ''# A\<newline>alpha'', cr_chunkIndex = 0,
      cr_start = 0, cr_end = 9, cr_sectionTitle = ''A'', cr_sectionPath = ''A'',
      cr_contextPrefix = ''[A] '', cr_vector = Some [9]\<rparr>]"
    by (simp add: records_of_def record_of_def nth_opt_def)
  from e4 w3 have w4: "w4 = records" by (simp add: storing_simps)
  from st w4 records have final: "snd (snd ?sync)
       = ([\<lparr>cr_text = ''# C\<newline>gamma'', cr_chunkHash = ''# C\<newline>gamma'', cr_chunkIndex = Suc 0,
      cr_start = 10, cr_end = 19, cr_sectionTitle = ''C'', cr_sectionPath = ''C'',
      cr_contextPrefix = ''[C] '', cr_vector = Some [9]\<rparr>,
           \<lparr>cr_text = ''# A\<newline>alpha'', cr_chunkHash = ''# A\<newline>alpha'', cr_chunkIndex = 0,
      cr_start = 0, cr_end = 9, cr_sectionTitle = ''A'', cr_sectionPath = ''A'',
      cr_contextPrefix = ''[A] '', cr_vector = Some [9]\<rparr>],
          ?l @ [EmbedBatch [''# C\<newline>gamma''], EmbedBatch [''# A\<newline>alpha''], Reset,
               Insert [\<lparr>cr_text = ''# C\<newline>gamma'', cr_chunkHash = ''# C\<newline>gamma'', cr_chunkIndex = Suc 0,
      cr_start = 10, cr_end = 19, cr_sectionTitle = ''C'', cr_sectionPath = ''C'',
      cr_contextPrefix = ''[C] '', cr_vector = Some [9]\<rparr>,
                       \<lparr>cr_text = ''# A\<newline>alpha'', cr_chunkHash = ''# A\<newline>alpha'', cr_chunkIndex = 0,
      cr_start = 0, cr_end = 9, cr_sectionTitle = ''A'', cr_sectionPath = ''A'',
      cr_contextPrefix = ''[A] '', cr_vector = Some [9]\<rparr>]])"
    by simp
  from sh have sh': "storedHashes (fst (snd ?sync)) = [''# A\<newline>alpha'', ''# C\<newline>gamma'']"
    by (simp add: new_Set_def)
  show ?thesis
    apply (rule exI [of _ m], rule exI [of _ "?w"], rule exI [of _ "?l"])
    using first stored ok sh' final by simp
qed

section \<open>The empty document\<close>

lemma empty_headings: "extractHeadings [] = []" by code_simp
lemma empty_paragraphs: "splitParagraphs [] = []" by code_simp
lemma empty_positional: "positionalSections [] 5 = [HeadingNode 1 ''Section 1 of 1'' 0 0 []]" by code_simp
lemma empty_outline:
  "generateOutline [HeadingNode 1 ''Section 1 of 1'' 0 0 []] 6 [] = ''1. Section 1 of 1''"
  by code_simp
lemma empty_summary: "generateDocSummary [] 3 = []" by code_simp
lemma empty_sections:
  "generateSectionSummaries [] (flattenTopLevel [HeadingNode 1 ''Section 1 of 1'' 0 0 []]) 1
   = [\<lparr> s_title = ''Section 1 of 1'', s_summary = [], s_startOffset = 0, s_endOffset = 0 \<rparr>]"
  by code_simp
lemma empty_segments: "splitIntoSegments [] m = []"
  by (simp add: splitIntoSegments_def split_paragraphs_def trim_def)
lemma empty_words: "totalWords (analyzeText []) = 0"
  by code_simp

lemma empty_chunks: "chunkText sha256 [] options = []"
  by (simp add: chunkText_def empty_segments applyOverlap_def Let_def split: option.splits)

lemma empty_hierarchy_positional:
  "extractHierarchy ar [] None no_hierarchy_options st
   = (Inr \<lparr> headings = [HeadingNode 1 ''Section 1 of 1'' 0 0 []],
              outline = ''1. Section 1 of 1'',
              documentSummary = [],
              sectionSummaries =
                [\<lparr> s_title = ''Section 1 of 1'', s_summary = [], s_startOffset = 0, s_endOffset = 0 \<rparr>],
              strategy = Positional \<rparr>, st)"
  by (simp add: extractHierarchy_def empty_headings Let_def resolveOptions_def
        no_hierarchy_options_def empty_positional empty_outline empty_summary empty_sections
        del: One_nat_def)

lemma empty_hierarchy_embedding:
  "extractHierarchy ar [] (Some X) no_hierarchy_options st
   = (Inr \<lparr> headings = [HeadingNode 1 ''Section 1 of 1'' 0 0 []],
              outline = ''1. Section 1 of 1'',
              documentSummary = [],
              sectionSummaries =
                [\<lparr> s_title = ''Section 1 of 1'', s_summary = [], s_startOffset = 0, s_endOffset = 0 \<rparr>],
              strategy = EmbeddingSimilarity \<rparr>, st)"
  by (simp add: extractHierarchy_def detectSectionsByEmbedding_def empty_headings
        empty_paragraphs Let_def resolveOptions_def no_hierarchy_options_def empty_outline
        empty_summary empty_sections del: One_nat_def)

text \<open>
  Claim C7, as stated, fails.  For the empty text the hierarchy extractor returns one
  heading node, the section \<open>"Section 1 of 1"\<close> covering \<open>0..0\<close>, so \<open>headings\<close> is not empty
  and the outline is the line \<open>"1. Section 1 of 1"\<close>; and when an embedder is passed, as the
  sync manager does, the strategy is \<open>embedding-similarity\<close>.
\<close>

theorem C7_empty_document_counterexample:
  "extractHierarchy real_arith [] (None :: (real, unit) externals option) no_hierarchy_options ((), [])
     = (Inr \<lparr> headings = [HeadingNode 1 ''Section 1 of 1'' 0 0 []],
                outline = ''1. Section 1 of 1'',
                documentSummary = [],
                sectionSummaries =
                  [\<lparr> s_title = ''Section 1 of 1'', s_summary = [],
                     s_startOffset = 0, s_endOffset = 0 \<rparr>],
                strategy = Positional \<rparr>, ((), []))
   \<and> extractHierarchy real_arith [] (Some accepting) no_hierarchy_options ((), [])
     = (Inr \<lparr> headings = [HeadingNode 1 ''Section 1 of 1'' 0 0 []],
                outline = ''1. Section 1 of 1'',
                documentSummary = [],
                sectionSummaries =
                  [\<lparr> s_title = ''Section 1 of 1'', s_summary = [],
                     s_startOffset = 0, s_endOffset = 0 \<rparr>],
                strategy = EmbeddingSimilarity \<rparr>, ((), []))"
  by (simp only: empty_hierarchy_positional empty_hierarchy_embedding)

text \<open>
  Claim C7, amended.  For the empty text, \<open>analyzeText\<close> counts no word and \<open>chunkText\<close>
  returns no chunk, whatever the options.  \<open>extractHierarchy\<close> with default options and
  without an embedder returns the strategy \<open>positional\<close>, \<open>headings\<close> made of the single
  level-1 section \<open>"Section 1 of 1"\<close> covering \<open>0..0\<close>, the outline \<open>"1. Section 1 of 1"\<close>, an
  empty document summary and one section summary whose text is empty; with an embedder
  the result is the same except for the strategy \<open>embedding-similarity\<close>, and the embedder
  is not called.
\<close>

theorem C7_empty_document:
  "totalWords (analyzeText []) = 0
   \<and> chunkText sha256 [] options = []
   \<and> extractHierarchy ar [] None no_hierarchy_options st
       = (Inr \<lparr> headings = [HeadingNode 1 ''Section 1 of 1'' 0 0 []],
                  outline = ''1. Section 1 of 1'',
                  documentSummary = [],
                  sectionSummaries =
                    [\<lparr> s_title = ''Section 1 of 1'', s_summary = [],
                       s_startOffset = 0, s_endOffset = 0 \<rparr>],
                  strategy = Positional \<rparr>, st)
   \<and> extractHierarchy ar [] (Some X) no_hierarchy_options st
       = (Inr \<lparr> headings = [HeadingNode 1 ''Section 1 of 1'' 0 0 []],
                  outline = ''1. Section 1 of 1'',
                  documentSummary = [],
                  sectionSummaries =
                    [\<lparr> s_title = ''Section 1 of 1'', s_summary = [],
                       s_startOffset = 0, s_endOffset = 0 \<rparr>],
                  strategy = EmbeddingSimilarity \<rparr>, st)"
  using empty_words empty_chunks empty_hierarchy_positional empty_hierarchy_embedding
  by blast

theorem C7_empty_document_witness:
  "totalWords (analyzeText []) = 0
   \<and> chunkText plain_digest [] no_chunk_options = []
   \<and> fst (extractHierarchy real_arith [] (None :: (real, unit) externals option) no_hierarchy_options ((), []))
       = Inr \<lparr> headings = [HeadingNode 1 ''Section 1 of 1'' 0 0 []],
                 outline = ''1. Section 1 of 1'',
                 documentSummary = [],
                 sectionSummaries =
                   [\<lparr> s_title = ''Section 1 of 1'', s_summary = [],
                      s_startOffset = 0, s_endOffset = 0 \<rparr>],
                 strategy = Positional \<rparr>
   \<and> snd (extractHierarchy real_arith [] (Some rejecting_insert) no_hierarchy_options ((), [])) = ((), [])"
  using C7_empty_document [of plain_digest no_chunk_options real_arith "((), [])" rejecting_insert]
  by simp

section \<open>Summaries that are blank\<close>












section \<open>Offsets of the chunks\<close>

lemma index_at_bounds:
  "index_at sub s k = Some r \<Longrightarrow> k \<le> r \<and> r + length sub \<le> k + length s"
proof (induction s arbitrary: k)
  case Nil
  then show ?case by (simp split: if_splits)
next
  case (Cons c cs)
  show ?case
  proof (cases "prefix sub (c # cs)")
    case True
    with Cons.prems have "r = k" by simp
    with prefix_length_le [OF True] show ?thesis by simp
  next
    case False
    with Cons.prems have "index_at sub cs (Suc k) = Some r" by simp
    from Cons.IH [OF this] show ?thesis by simp
  qed
qed

lemma indexOf_cases:
  "indexOf txt sub from = - 1
   \<or> (int (min from (length txt)) \<le> indexOf txt sub from
      \<and> indexOf txt sub from + int (length sub) \<le> int (length txt))"
proof (cases "index_at sub (drop from txt) (min from (length txt))")
  case None
  then show ?thesis by (simp add: indexOf_def)
next
  case (Some r)
  from index_at_bounds [OF Some] Some show ?thesis
    by (auto simp: indexOf_def min_def split: if_splits)
qed

lemma position_loop_invariant:
  assumes "searchFrom \<le> length txt" and "\<forall>p \<in> set ps. snd p \<noteq> []"
  shows "(\<forall>c \<in> set (position_loop sha256 txt i searchFrom ps).
            chunk_in_bounds txt c \<and> (c_start c = 0 \<or> int searchFrom \<le> c_start c))
         \<and> successively (\<lambda>a b. c_start b = 0 \<or> c_start a \<le> c_start b)
               (position_loop sha256 txt i searchFrom ps)"
  using assms
proof (induction ps arbitrary: i searchFrom)
  case Nil
  show ?case by simp
next
  case (Cons p rest)
  obtain chunkText' canonical where p: "p = (chunkText', canonical)" by (cases p)
  with Cons.prems have nonempty: "canonical \<noteq> []" and rest: "\<forall>p \<in> set rest. snd p \<noteq> []"
    by simp_all
  let ?start = "indexOf txt canonical searchFrom"
  let ?sf' = "if ?start \<ge> 0 then nat ?start + 1 else searchFrom"
  let ?c = "\<lparr> c_index = i, c_text = chunkText', c_start = max ?start 0,
              c_end = (if ?start \<ge> 0 then ?start + int (length canonical) else int searchFrom),
              c_hash = sha256 chunkText', c_sectionTitle = None, c_sectionPath = None,
              c_contextPrefix = None \<rparr>"
  have unfold: "position_loop sha256 txt i searchFrom (p # rest)
                = ?c # position_loop sha256 txt (Suc i) ?sf' rest"
    by (simp add: p Let_def)
  from indexOf_cases [of "txt" canonical searchFrom] Cons.prems(1) nonempty
  have facts: "?sf' \<le> length txt" "chunk_in_bounds txt ?c"
    "c_start ?c = 0 \<or> int searchFrom \<le> c_start ?c" "c_start ?c \<le> int ?sf'" "searchFrom \<le> ?sf'"
    by (auto simp: chunk_in_bounds_def min_def Suc_le_eq
             simp flip: length_greater_0_conv)
  from Cons.IH [OF facts(1) rest, of "Suc i"]
  have ih: "\<forall>c \<in> set (position_loop sha256 txt (Suc i) ?sf' rest).
              chunk_in_bounds txt c \<and> (c_start c = 0 \<or> int ?sf' \<le> c_start c)"
    and succ: "successively (\<lambda>a b. c_start b = 0 \<or> c_start a \<le> c_start b)
                 (position_loop sha256 txt (Suc i) ?sf' rest)"
    by blast+
  have all: "\<forall>c \<in> set (?c # position_loop sha256 txt (Suc i) ?sf' rest).
            chunk_in_bounds txt c \<and> (c_start c = 0 \<or> int searchFrom \<le> c_start c)"
    using ih facts(2,3,5) by auto
  have "successively (\<lambda>a b. c_start b = 0 \<or> c_start a \<le> c_start b)
          (?c # position_loop sha256 txt (Suc i) ?sf' rest)"
  proof (cases "position_loop sha256 txt (Suc i) ?sf' rest")
    case Nil
    then show ?thesis by simp
  next
    case (Cons c' cs')
    with ih have "c_start c' = 0 \<or> int ?sf' \<le> c_start c'" by simp
    with facts(4) have "c_start c' = 0 \<or> c_start ?c \<le> c_start c'" by linarith
    with succ Cons show ?thesis by simp
  qed
  with all unfold show ?case by simp
qed


lemma merge_segments_nonempty: "\<forall>s \<in> set (merge_segments maxSize buffer segs). s \<noteq> []"
  by (induction segs arbitrary: buffer) auto

lemma splitIntoSegments_nonempty: "\<forall>s \<in> set (splitIntoSegments txt maxSize). s \<noteq> []"
  by (simp add: splitIntoSegments_def Let_def merge_segments_nonempty)

lemma successively_nth:
  "successively R xs \<Longrightarrow> Suc i < length xs \<Longrightarrow> R (xs ! i) (xs ! Suc i)"
proof (induction xs arbitrary: i)
  case Nil
  then show ?case by simp
next
  case (Cons x xs)
  show ?case
  proof (cases i)
    case 0
    with Cons.prems show ?thesis by (cases xs) simp_all
  next
    case (Suc j)
    with Cons.prems have "successively R xs" "Suc j < length xs"
      by (auto simp: successively_Cons)
    from Cons.IH [OF this] Suc show ?thesis by simp
  qed
qed

lemma chunkText_position_loop:
  "\<exists>ps. chunkText sha256 txt options = position_loop sha256 txt 0 0 ps \<and> (\<forall>p \<in> set ps. snd p \<noteq> [])"
proof -
  let ?m = "case maxChunkSize options of Some m \<Rightarrow> m | None \<Rightarrow> 1000"
  let ?ov = "case overlap options of Some v \<Rightarrow> v | None \<Rightarrow> 200"
  let ?ps = "zip (applyOverlap (splitIntoSegments txt ?m) ?ov) (splitIntoSegments txt ?m)"
  have "chunkText sha256 txt options = position_loop sha256 txt 0 0 ?ps"
    by (simp add: chunkText_def Let_def)
  moreover have "\<forall>p \<in> set ?ps. snd p \<noteq> []"
    using splitIntoSegments_nonempty [of "txt" ?m] by (auto dest: set_zip_rightD)
  ultimately show ?thesis by blast
qed

text \<open>
  Claim C5, as stated, fails in its second part.  In the text \<open>" aaaa\n\nb\n\n\nc"\<close> with
  \<open>maxChunkSize = 5\<close> and \<open>overlap = 0\<close> the first segment \<open>"aaaa"\<close> is found at offset 1.
  The second segment is \<open>"b\n\nc"\<close>, merged from two paragraphs that three line feeds
  separate in the text, so it is not found: its chunk gets \<open>start = 0\<close> and \<open>end = 2\<close>, the
  cursor.  The starts \<open>1, 0\<close> are not monotone.
\<close>

theorem C5_chunk_offsets_counterexample:
  "map (\<lambda>c. (c_text c, c_start c, c_end c))
     (chunkText plain_digest '' aaaa\<newline>\<newline>b\<newline>\<newline>\<newline>c'' \<lparr> maxChunkSize = Some 5, overlap = Some 0 \<rparr>)
   = [(''aaaa'', 1, 5), (''b\<newline>\<newline>c'', 0, 2)]"
  by code_simp

text \<open>
  Claim C5, amended.  For every text and all options, every chunk that \<open>chunkText\<close> returns
  satisfies \<open>0 \<le> start \<le> end \<le> len(text)\<close>.  For every adjacent pair of chunks,
  \<open>start\<^sub>i \<le> start\<^sub>i\<^sub>+\<^sub>1\<close> unless the later chunk has \<open>start = 0\<close>, the value a chunk gets
  when its canonical segment is not found.  In the loop that assigns the positions, a
  segment that is not found from the cursor gets \<open>start = 0\<close> and \<open>end\<close> equal to the cursor.
\<close>

theorem C5_chunk_offsets:
  "(\<forall>c \<in> set (chunkText sha256 txt options).
      0 \<le> c_start c \<and> c_start c \<le> c_end c \<and> c_end c \<le> int (length txt))
   \<and> (\<forall>i. Suc i < length (chunkText sha256 txt options) \<longrightarrow>
          c_start (chunkText sha256 txt options ! Suc i) = 0
          \<or> c_start (chunkText sha256 txt options ! i)
              \<le> c_start (chunkText sha256 txt options ! Suc i))
   \<and> (\<forall>i searchFrom chunkText' canonical rest.
          indexOf txt canonical searchFrom < 0 \<longrightarrow>
          c_start (hd (position_loop sha256 txt i searchFrom ((chunkText', canonical) # rest))) = 0
          \<and> c_end (hd (position_loop sha256 txt i searchFrom ((chunkText', canonical) # rest)))
              = int searchFrom)"
proof -
  from chunkText_position_loop [of sha256 "txt" options] obtain ps where
    eq: "chunkText sha256 txt options = position_loop sha256 txt 0 0 ps"
    and ne: "\<forall>p \<in> set ps. snd p \<noteq> []"
    by blast
  have "0 \<le> length txt" by simp
  from position_loop_invariant [OF this ne, of sha256 0]
  have bounds: "\<forall>c \<in> set (chunkText sha256 txt options). chunk_in_bounds txt c"
    and succ: "successively (\<lambda>a b. c_start b = 0 \<or> c_start a \<le> c_start b)
                 (chunkText sha256 txt options)"
    unfolding eq by blast+
  have adj: "\<forall>i. Suc i < length (chunkText sha256 txt options) \<longrightarrow>
          c_start (chunkText sha256 txt options ! Suc i) = 0
          \<or> c_start (chunkText sha256 txt options ! i)
              \<le> c_start (chunkText sha256 txt options ! Suc i)"
    using successively_nth [OF succ] by blast
  have clamp: "\<forall>i searchFrom chunkText' canonical rest.
          indexOf txt canonical searchFrom < 0 \<longrightarrow>
          c_start (hd (position_loop sha256 txt i searchFrom ((chunkText', canonical) # rest))) = 0
          \<and> c_end (hd (position_loop sha256 txt i searchFrom ((chunkText', canonical) # rest)))
              = int searchFrom"
    by (simp add: Let_def)
  from bounds adj clamp show ?thesis
    unfolding chunk_in_bounds_def by blast
qed

theorem C5_chunk_offsets_witness:
  "length (chunkText plain_digest '' aaaa\<newline>\<newline>b\<newline>\<newline>\<newline>c''
             \<lparr> maxChunkSize = Some 5, overlap = Some 0 \<rparr>) = 2
   \<and> 0 \<le> c_start (chunkText plain_digest '' aaaa\<newline>\<newline>b\<newline>\<newline>\<newline>c''
                     \<lparr> maxChunkSize = Some 5, overlap = Some 0 \<rparr> ! 0)
   \<and> c_start (chunkText plain_digest '' aaaa\<newline>\<newline>b\<newline>\<newline>\<newline>c''
                \<lparr> maxChunkSize = Some 5, overlap = Some 0 \<rparr> ! 0)
       \<le> c_end (chunkText plain_digest '' aaaa\<newline>\<newline>b\<newline>\<newline>\<newline>c''
                  \<lparr> maxChunkSize = Some 5, overlap = Some 0 \<rparr> ! 0)
   \<and> c_end (chunkText plain_digest '' aaaa\<newline>\<newline>b\<newline>\<newline>\<newline>c''
              \<lparr> maxChunkSize = Some 5, overlap = Some 0 \<rparr> ! 0) \<le> 12
   \<and> (c_start (chunkText plain_digest '' aaaa\<newline>\<newline>b\<newline>\<newline>\<newline>c''
                 \<lparr> maxChunkSize = Some 5, overlap = Some 0 \<rparr> ! 1) = 0
        \<or> c_start (chunkText plain_digest '' aaaa\<newline>\<newline>b\<newline>\<newline>\<newline>c''
                     \<lparr> maxChunkSize = Some 5, overlap = Some 0 \<rparr> ! 0)
            \<le> c_start (chunkText plain_digest '' aaaa\<newline>\<newline>b\<newline>\<newline>\<newline>c''
                         \<lparr> maxChunkSize = Some 5, overlap = Some 0 \<rparr> ! 1))
   \<and> indexOf '' aaaa\<newline>\<newline>b\<newline>\<newline>\<newline>c'' ''b\<newline>\<newline>c'' 2 < 0
   \<and> c_end (hd (position_loop plain_digest '' aaaa\<newline>\<newline>b\<newline>\<newline>\<newline>c'' 1 2
                   [(''b\<newline>\<newline>c'', ''b\<newline>\<newline>c'')])) = 2"
proof -
  let ?cs = "chunkText plain_digest '' aaaa\<newline>\<newline>b\<newline>\<newline>\<newline>c''
               \<lparr> maxChunkSize = Some 5, overlap = Some 0 \<rparr>"
  have len: "length ?cs = 2" by code_simp
  then have mem: "?cs ! 0 \<in> set ?cs" by simp
  have notfound: "indexOf '' aaaa\<newline>\<newline>b\<newline>\<newline>\<newline>c'' ''b\<newline>\<newline>c'' 2 < 0" by code_simp
  have txtlen: "int (length '' aaaa\<newline>\<newline>b\<newline>\<newline>\<newline>c'') = 12" by simp
  note inst = C5_chunk_offsets [of plain_digest "'' aaaa\<newline>\<newline>b\<newline>\<newline>\<newline>c''"
               "\<lparr> maxChunkSize = Some 5, overlap = Some 0 \<rparr>"]
  from inst mem txtlen have b: "0 \<le> c_start (?cs ! 0) \<and> c_start (?cs ! 0) \<le> c_end (?cs ! 0)
       \<and> c_end (?cs ! 0) \<le> 12"
    by (metis (no_types, lifting))
  from inst len have a: "c_start (?cs ! 1) = 0 \<or> c_start (?cs ! 0) \<le> c_start (?cs ! 1)"
    by (metis One_nat_def lessI numeral_2_eq_2)
  from inst notfound
  have c: "c_end (hd (position_loop plain_digest '' aaaa\<newline>\<newline>b\<newline>\<newline>\<newline>c'' 1 2
                   [(''b\<newline>\<newline>c'', ''b\<newline>\<newline>c'')])) = int 2"
    by blast
  from len a b c notfound show ?thesis by simp
qed

section \<open>The heading tree\<close>

lemma trim_Nil: "trim [] = []"
  by (simp add: trim_def)

lemma recognize_Nil: "recognize [] = None"
  by code_simp

lemma lines_length_nonneg: "0 \<le> (\<Sum>l \<leftarrow> lines. int (length l) + 1)"
  by (induction lines) simp_all

lemma lines_length_split:
  "(\<Sum>l \<leftarrow> split_on_from sep cur s. int (length l) + 1) = int (length cur) + int (length s) + 1"
  by (induction s arbitrary: cur) simp_all

lemma headings_loop_facts:
  "(\<forall>h \<in> set (headings_loop offs lines).
      offs \<le> f_offset h \<and> f_offset h < offs + (\<Sum>l \<leftarrow> lines. int (length l) + 1) - 1)
   \<and> sorted_wrt (<) (map f_offset (headings_loop offs lines))"
proof (induction lines arbitrary: offs)
  case Nil
  show ?case by simp
next
  case (Cons line rest)
  let ?offs' = "offs + int (length line) + 1"
  let ?total = "\<Sum>l \<leftarrow> rest. int (length l) + 1"
  from Cons.IH [of ?offs']
  have ih: "\<forall>h \<in> set (headings_loop ?offs' rest).
      ?offs' \<le> f_offset h \<and> f_offset h < ?offs' + ?total - 1"
    and sorted: "sorted_wrt (<) (map f_offset (headings_loop ?offs' rest))"
    by blast+
  show ?case
  proof (cases "recognize (trim line)")
    case None
    with ih sorted show ?thesis by auto
  next
    case (Some r)
    obtain lvl ttl where r: "r = (lvl, ttl)" by (cases r)
    from Some have "trim line \<noteq> []"
      by (auto simp: recognize_Nil)
    then have "line \<noteq> []" by (auto simp: trim_Nil)
    then have pos: "1 \<le> int (length line)" by (cases line) simp_all
    from Some r have unfold: "headings_loop offs (line # rest)
        = \<lparr> f_level = lvl, f_title = ttl, f_offset = offs \<rparr> # headings_loop ?offs' rest"
      by simp
    have total: "(\<Sum>l \<leftarrow> line # rest. int (length l) + 1) = int (length line) + 1 + ?total"
      by simp
    have first: "offs < offs + (int (length line) + 1 + ?total) - 1"
      using pos lines_length_nonneg [of rest] by linarith
    have others: "\<forall>h \<in> set (headings_loop ?offs' rest).
        offs < f_offset h \<and> f_offset h < offs + (int (length line) + 1 + ?total) - 1"
      using ih pos by auto
    from first others sorted show ?thesis
      unfolding unfold total by (auto simp del: sum_list.Cons)
  qed
qed

lemma extractHeadings_facts:
  "(\<forall>h \<in> set (extractHeadings txt). 0 \<le> f_offset h \<and> f_offset h < int (length txt))
   \<and> sorted_wrt (<) (map f_offset (extractHeadings txt))"
  using headings_loop_facts [of 0 "split_on CHR 0x0A txt"]
  by (simp add: extractHeadings_def split_on_def lines_length_split)

lemma with_ends_length: "length (with_ends L flat) = length flat"
  by (induction flat) simp_all

lemma with_ends_nth:
  "k < length flat \<Longrightarrow>
   with_ends L flat ! k =
     \<lparr> f_level = f_level (flat ! k), f_title = f_title (flat ! k), f_offset = f_offset (flat ! k),
       f_endOffset = (case find (\<lambda>n. f_level n \<le> f_level (flat ! k)) (drop (Suc k) flat) of
                        Some h \<Rightarrow> f_offset h | None \<Rightarrow> L) \<rparr>"
  by (induction flat arbitrary: k) (auto simp: nth_Cons split: nat.splits)

lemma offsets_mono:
  assumes "sorted_wrt (<) (map f_offset flat)" and "a < b" and "b < length flat"
  shows "f_offset (flat ! a) < f_offset (flat ! b)"
  using sorted_wrt_nth_less [of "(<)" "map f_offset flat" a b] assms by simp

lemma child_end_spec:
  "k \<le> e \<Longrightarrow>
     k \<le> child_end items k e lvl \<and> child_end items k e lvl \<le> e
     \<and> (\<forall>j. k \<le> j \<and> j < child_end items k e lvl \<longrightarrow> lvl < f_level (items ! j))
     \<and> (child_end items k e lvl < e \<longrightarrow> f_level (items ! child_end items k e lvl) \<le> lvl)"
proof (induction items k e lvl rule: child_end.induct)
  case (1 items childEnd end' lvl)
  show ?case
  proof (cases "childEnd < end' \<and> f_level (items ! childEnd) > lvl")
    case True
    then have "Suc childEnd \<le> end'" by simp
    note ih = "1.IH" [OF True this]
    from True have eq: "child_end items childEnd end' lvl = child_end items (Suc childEnd) end' lvl"
      by (subst child_end.simps) simp
    have "lvl < f_level (items ! j)"
      if "childEnd \<le> j" and "j < child_end items (Suc childEnd) end' lvl" for j
    proof (cases "j = childEnd")
      case True
      with \<open>childEnd < end' \<and> f_level (items ! childEnd) > lvl\<close> show ?thesis by simp
    next
      case False
      with that have "Suc childEnd \<le> j" by simp
      with ih that show ?thesis by blast
    qed
    with ih show ?thesis unfolding eq by auto
  next
    case False
    then have eq: "child_end items childEnd end' lvl = childEnd"
      by (subst child_end.simps) (simp only: if_False)
    with "1.prems" False show ?thesis by auto
  qed
qed

text \<open>
  The end that \<open>withEnds\<close> gives the heading \<open>k\<close>, compared with the start of a later
  heading \<open>m\<close> of the same or a higher rank (or with the length of the document, for \<open>m\<close>
  the number of headings).
\<close>

lemma end_offset_le:
  assumes sorted: "sorted_wrt (<) (map f_offset flat)"
      and below: "\<forall>h \<in> set flat. f_offset h \<le> L"
      and km: "k < m" "m \<le> length flat"
      and stop: "m < length flat \<longrightarrow> f_level (flat ! m) \<le> f_level (flat ! k)"
  shows "f_endOffset (with_ends L flat ! k) \<le> (if m < length flat then f_offset (flat ! m) else L)"
proof -
  let ?P = "\<lambda>n. f_level n \<le> f_level (flat ! k)"
  let ?xs = "drop (Suc k) flat"
  show ?thesis
  proof (cases "find ?P ?xs")
    case None
    then have none: "\<forall>x \<in> set ?xs. \<not> ?P x" by (simp add: find_None_iff)
    have "\<not> m < length flat"
    proof
      assume m: "m < length flat"
      with km have "flat ! m = ?xs ! (m - Suc k)" "m - Suc k < length ?xs" by simp_all
      then have "flat ! m \<in> set ?xs" by (metis nth_mem)
      with none stop m show False by blast
    qed
    with None km show ?thesis by (simp add: with_ends_nth)
  next
    case (Some h)
    then obtain i where i: "i < length ?xs" "?P (?xs ! i)" "h = ?xs ! i"
      and first: "\<forall>j < i. \<not> ?P (?xs ! j)"
      by (auto simp: find_Some_iff)
    from i have h: "h = flat ! (Suc k + i)" and in_range: "Suc k + i < length flat" by simp_all
    from km have k: "k < length flat" by simp
    show ?thesis
    proof (cases "m < length flat")
      case True
      have "Suc k + i \<le> m"
      proof (rule ccontr)
        assume "\<not> Suc k + i \<le> m"
        with km have "m - Suc k < i" by simp
        with first have "\<not> ?P (?xs ! (m - Suc k))" by blast
        moreover from km True have "?xs ! (m - Suc k) = flat ! m" by simp
        ultimately show False using stop True by simp
      qed
      then have "f_offset (flat ! (Suc k + i)) \<le> f_offset (flat ! m)"
        using offsets_mono [OF sorted, of "Suc k + i" m] True
        by (cases "Suc k + i = m") auto
      with Some h k True show ?thesis by (simp add: with_ends_nth)
    next
      case False
      from in_range have "flat ! (Suc k + i) \<in> set flat" by (metis nth_mem)
      with below have "f_offset (flat ! (Suc k + i)) \<le> L" by blast
      with Some h k False show ?thesis by (simp add: with_ends_nth)
    qed
  qed
qed

lemma end_offset_eq:
  assumes km: "k < m" "m \<le> length flat"
      and stop: "m < length flat \<longrightarrow> f_level (flat ! m) \<le> f_level (flat ! k)"
      and deeper: "\<forall>j. k < j \<and> j < m \<longrightarrow> f_level (flat ! k) < f_level (flat ! j)"
  shows "f_endOffset (with_ends L flat ! k) = (if m < length flat then f_offset (flat ! m) else L)"
proof -
  let ?P = "\<lambda>n. f_level n \<le> f_level (flat ! k)"
  let ?xs = "drop (Suc k) flat"
  from km have k: "k < length flat" by simp
  show ?thesis
  proof (cases "m < length flat")
    case True
    with km have len: "m - Suc k < length ?xs" and at: "?xs ! (m - Suc k) = flat ! m" by simp_all
    have before: "\<not> ?P (?xs ! j)" if "j < m - Suc k" for j
    proof -
      from that km True have "?xs ! j = flat ! (Suc k + j)" "k < Suc k + j" "Suc k + j < m"
        by simp_all
      with deeper show ?thesis by (metis not_le)
    qed
    from len at stop True before have "find ?P ?xs = Some (flat ! m)"
      by (auto simp: find_Some_iff intro!: exI [of _ "m - Suc k"])
    with k True show ?thesis by (simp add: with_ends_nth)
  next
    case False
    with km have m: "m = length flat" by simp
    have "\<not> ?P x" if "x \<in> set ?xs" for x
    proof -
      from that obtain j where j: "j < length ?xs" "x = ?xs ! j" by (metis in_set_conv_nth)
      with m have "x = flat ! (Suc k + j)" "k < Suc k + j" "Suc k + j < m" by simp_all
      with deeper show ?thesis by (metis not_le)
    qed
    then have "find ?P ?xs = None" by (simp add: find_None_iff)
    with k False show ?thesis by (simp add: with_ends_nth)
  qed
qed

text \<open>
  The invariant of \<open>nestFrom\<close>.  A call works on the headings \<open>i..e-1\<close>; when a heading \<open>e\<close>
  exists it has a higher rank (a smaller level) than each of them.  Every node that the
  call returns is well formed and is made from one of these headings, and the nodes, in
  order, do not overlap.
\<close>

lemma nestFrom_ok:
  assumes sorted: "sorted_wrt (<) (map f_offset flat)"
      and below: "\<forall>h \<in> set flat. f_offset h < L"
      and ie: "i \<le> e" "e \<le> length flat"
      and inv: "e < length flat \<longrightarrow>
                  (\<forall>k. i \<le> k \<and> k < e \<longrightarrow> f_level (flat ! e) < f_level (flat ! k))"
  shows "(\<forall>c \<in> set (nestFrom (with_ends L flat) i e pl).
            tree_ok L c
            \<and> (\<exists>k. i \<le> k \<and> k < e \<and> level c = f_level (flat ! k)
                 \<and> startOffset c = f_offset (flat ! k)
                 \<and> endOffset c = f_endOffset (with_ends L flat ! k)))
         \<and> disjoint_in_order (nestFrom (with_ends L flat) i e pl)"
  using ie inv
proof (induction "e - i" arbitrary: i e pl rule: less_induct)
  case less
  let ?items = "with_ends L flat"
  let ?n = "length flat"
  from below have below': "\<forall>h \<in> set flat. f_offset h \<le> L" by auto
  show ?case
  proof (cases "i < e")
    case False
    then have "nestFrom ?items i e pl = []" by (subst nestFrom.simps) simp
    then show ?thesis by (simp add: disjoint_in_order_def)
  next
    case True
    with less.prems have i: "i < ?n" by simp
    let ?li = "f_level (flat ! i)"
    from i have item: "f_level (?items ! i) = ?li" "f_offset (?items ! i) = f_offset (flat ! i)"
      "f_title (?items ! i) = f_title (flat ! i)"
      by (simp_all add: with_ends_nth)
    show ?thesis
    proof (cases "?li \<le> pl \<and> pl > 0")
      case True
      with \<open>i < e\<close> item have "nestFrom ?items i e pl = []"
        by (subst nestFrom.simps) (simp add: Let_def)
      then show ?thesis by (simp add: disjoint_in_order_def)
    next
      case False
      define ce where "ce = child_end ?items (Suc i) e ?li"
      define bound where "bound = (if ce < ?n then f_offset (flat ! ce) else L)"
      from \<open>i < e\<close> have "Suc i \<le> e" by simp
      from child_end_spec [OF this, of ?items ?li]
      have ce: "Suc i \<le> ce" "ce \<le> e"
        and deeper0: "\<forall>j. Suc i \<le> j \<and> j < ce \<longrightarrow> ?li < f_level (?items ! j)"
        and stop0: "ce < e \<longrightarrow> f_level (?items ! ce) \<le> ?li"
        unfolding ce_def by blast+
      from ce less.prems have cen: "ce \<le> ?n" by simp
      have deeper: "\<forall>j. i < j \<and> j < ce \<longrightarrow> ?li < f_level (flat ! j)"
      proof (intro allI impI)
        fix j assume j: "i < j \<and> j < ce"
        with cen have "j < ?n" by simp
        then have same: "f_level (?items ! j) = f_level (flat ! j)" by (simp add: with_ends_nth)
        from j have "Suc i \<le> j \<and> j < ce" by simp
        with deeper0 have "?li < f_level (?items ! j)" by blast
        with same show "?li < f_level (flat ! j)" by simp
      qed
      have stop: "ce < ?n \<longrightarrow> f_level (flat ! ce) \<le> ?li"
      proof
        assume lt: "ce < ?n"
        show "f_level (flat ! ce) \<le> ?li"
        proof (cases "ce < e")
          case True
          with stop0 lt show ?thesis by (simp add: with_ends_nth)
        next
          case False
          with ce have "ce = e" by simp
          with lt less.prems(3) \<open>i < e\<close> have "f_level (flat ! ce) < ?li" by simp
          then show ?thesis by simp
        qed
      qed
      from ce have ice: "i < ce" by simp
      have node_end: "f_endOffset (?items ! i) = bound"
        unfolding bound_def by (rule end_offset_eq [OF ice cen stop deeper])
      define kids where "kids = (if ce > i + 1 then nestFrom ?items (i + 1) ce ?li else [])"
      define others where "others = nestFrom ?items ce e pl"
      have unfold: "nestFrom ?items i e pl
          = HeadingNode ?li (f_title (flat ! i)) (f_offset (flat ! i)) bound kids # others"
        using \<open>i < e\<close> False item node_end
        by (subst nestFrom.simps) (simp add: Let_def ce_def kids_def others_def)
      have kids_ok: "(\<forall>c \<in> set kids.
            tree_ok L c
            \<and> (\<exists>k. Suc i \<le> k \<and> k < ce \<and> level c = f_level (flat ! k)
                 \<and> startOffset c = f_offset (flat ! k)
                 \<and> endOffset c = f_endOffset (?items ! k)))
         \<and> disjoint_in_order kids"
      proof (cases "ce > i + 1")
        case False
        then show ?thesis by (simp add: kids_def disjoint_in_order_def)
      next
        case True
        have m: "ce - Suc i < e - i" using ce \<open>i < e\<close> by simp
        have inv': "ce < ?n \<longrightarrow>
                      (\<forall>k. Suc i \<le> k \<and> k < ce \<longrightarrow> f_level (flat ! ce) < f_level (flat ! k))"
          using stop deeper by (auto simp: Suc_le_eq intro: le_less_trans)
        from less.hyps [OF m ce(1) cen inv', of ?li] True show ?thesis by (simp add: kids_def)
      qed
      have others_ok: "(\<forall>c \<in> set others.
            tree_ok L c
            \<and> (\<exists>k. ce \<le> k \<and> k < e \<and> level c = f_level (flat ! k)
                 \<and> startOffset c = f_offset (flat ! k)
                 \<and> endOffset c = f_endOffset (?items ! k)))
         \<and> disjoint_in_order others"
      proof -
        have m: "e - ce < e - i" using ce \<open>i < e\<close> by simp
        have inv': "e < ?n \<longrightarrow>
                      (\<forall>k. ce \<le> k \<and> k < e \<longrightarrow> f_level (flat ! e) < f_level (flat ! k))"
          using less.prems(3) ce by auto
        from less.hyps [OF m ce(2) less.prems(2) inv', of pl] show ?thesis
          by (simp add: others_def)
      qed
      have s_lt_e: "f_offset (flat ! i) < bound"
      proof (cases "ce < ?n")
        case True
        with offsets_mono [OF sorted ice] show ?thesis by (simp add: bound_def)
      next
        case False
        from i have "flat ! i \<in> set flat" by (metis nth_mem)
        with below False show ?thesis by (simp add: bound_def)
      qed
      have e_le: "bound \<le> L"
      proof (cases "ce < ?n")
        case True
        then have "flat ! ce \<in> set flat" by (metis nth_mem)
        with below' True show ?thesis by (simp add: bound_def)
      next
        case False
        then show ?thesis by (simp add: bound_def)
      qed
      have kid_ok: "f_offset (flat ! i) < startOffset c \<and> endOffset c \<le> bound
                    \<and> ?li < level c \<and> tree_ok L c" if "c \<in> set kids" for c
      proof -
        from kids_ok that obtain k where k: "Suc i \<le> k" "k < ce"
          "level c = f_level (flat ! k)" "startOffset c = f_offset (flat ! k)"
          "endOffset c = f_endOffset (?items ! k)" and ok: "tree_ok L c"
          by blast
        from k cen have kn: "k < ?n" by simp
        from k have ik: "i < k" by simp
        from offsets_mono [OF sorted ik kn] k have a: "f_offset (flat ! i) < startOffset c"
          by simp
        from deeper ik k have lv: "?li < f_level (flat ! k)" by simp
        have stopk: "ce < ?n \<longrightarrow> f_level (flat ! ce) \<le> f_level (flat ! k)"
          using stop lv by auto
        from end_offset_le [OF sorted below' k(2) cen stopk] k have b: "endOffset c \<le> bound"
          by (simp add: bound_def)
        from a b lv k ok show ?thesis by simp
      qed
      have node_ok: "tree_ok L (HeadingNode ?li (f_title (flat ! i)) (f_offset (flat ! i)) bound kids)"
        using s_lt_e e_le kid_ok kids_ok by simp
      have after: "bound \<le> startOffset c" if "c \<in> set others" for c
      proof -
        from others_ok that obtain k where k: "ce \<le> k" "k < e"
          "startOffset c = f_offset (flat ! k)"
          by blast
        with less.prems have kn: "k < ?n" "ce < ?n" by simp_all
        show ?thesis
        proof (cases "ce = k")
          case True
          with k kn show ?thesis by (simp add: bound_def)
        next
          case False
          with k have "ce < k" by simp
          from offsets_mono [OF sorted this kn(1)] k kn show ?thesis by (simp add: bound_def)
        qed
      qed
      have from_range: "\<exists>k. i \<le> k \<and> k < e \<and> level c = f_level (flat ! k)
                 \<and> startOffset c = f_offset (flat ! k)
                 \<and> endOffset c = f_endOffset (?items ! k)" if "c \<in> set others" for c
      proof -
        from others_ok that obtain k where "ce \<le> k" "k < e" "level c = f_level (flat ! k)"
          "startOffset c = f_offset (flat ! k)" "endOffset c = f_endOffset (?items ! k)"
          by blast
        with ice show ?thesis by (intro exI [of _ k]) simp
      qed
      have node_range: "\<exists>k. i \<le> k \<and> k < e \<and> ?li = f_level (flat ! k)
                 \<and> f_offset (flat ! i) = f_offset (flat ! k)
                 \<and> bound = f_endOffset (?items ! k)"
        using \<open>i < e\<close> node_end by (intro exI [of _ i]) simp
      from node_ok node_range after from_range others_ok show ?thesis
        unfolding unfold by (simp add: disjoint_in_order_def)
    qed
  qed
qed

lemma nestFrom_first:
  assumes "0 < e"
  shows "nestFrom items 0 e 0 \<noteq> []"
  using assms by (subst nestFrom.simps) (simp add: Let_def)

text \<open>
  Claim C6.  When headings are detected in the text, \<open>extractHierarchy\<close> returns, whatever
  the embedder and the options, the strategy \<open>heading\<close> and a tree that is not empty, in
  which every node, at every depth, has \<open>startOffset < endOffset \<le> len(text)\<close>; every child
  starts after its parent starts and ends where its parent ends or before; every child
  has a greater level than its parent, so the levels increase strictly along a path from
  a root to a leaf; and the siblings under one parent, and the roots, are in order and do
  not overlap: each ends where the next starts or before.
\<close>

theorem C6_heading_tree:
  assumes "extractHeadings txt \<noteq> []"
  shows "\<exists>hm. extractHierarchy ar txt emb hopts st = (Inr hm, st)
           \<and> strategy hm = Heading
           \<and> headings hm \<noteq> []
           \<and> (\<forall>n \<in> set (headings hm). tree_ok (int (length txt)) n)
           \<and> disjoint_in_order (headings hm)"
proof -
  let ?flat = "extractHeadings txt"
  let ?L = "int (length txt)"
  let ?tree = "nestFrom (with_ends ?L ?flat) 0 (length ?flat) 0"
  from assms have tree: "buildHierarchyTree ?flat ?L = ?tree"
    by (simp add: buildHierarchyTree_def with_ends_length Let_def)
  from extractHeadings_facts [of "txt"]
  have below: "\<forall>h \<in> set ?flat. f_offset h < ?L"
    and sorted: "sorted_wrt (<) (map f_offset ?flat)"
    by blast+
  have inv: "length ?flat < length ?flat \<longrightarrow>
      (\<forall>k. 0 \<le> k \<and> k < length ?flat \<longrightarrow>
           f_level (?flat ! length ?flat) < f_level (?flat ! k))"
    by simp
  from nestFrom_ok [OF sorted below _ _ inv, of 0]
  have ok: "\<forall>n \<in> set ?tree. tree_ok ?L n" and disjoint: "disjoint_in_order ?tree"
    by blast+
  from assms have "0 < length ?flat" by simp
  then have nonempty: "?tree \<noteq> []" by (rule nestFrom_first)
  from extractHierarchy_heading [OF assms, of ar emb hopts st] obtain ol ds ss where
    "extractHierarchy ar txt emb hopts st
       = (Inr \<lparr> headings = buildHierarchyTree ?flat ?L, outline = ol, documentSummary = ds,
                 sectionSummaries = ss, strategy = Heading \<rparr>, st)"
    by blast
  with tree ok disjoint nonempty show ?thesis by simp
qed

lemma nested_headings:
  "extractHeadings ''# A\<newline>alpha\<newline>## B\<newline>beta\<newline># C\<newline>gamma'' \<noteq> []"
  by code_simp

lemma nested_tree:
  "buildHierarchyTree (extractHeadings ''# A\<newline>alpha\<newline>## B\<newline>beta\<newline># C\<newline>gamma'')
     (int (length ''# A\<newline>alpha\<newline>## B\<newline>beta\<newline># C\<newline>gamma''))
   = [HeadingNode 1 ''A'' 0 20 [HeadingNode 2 ''B'' 10 20 []], HeadingNode 1 ''C'' 20 29 []]"
  by code_simp

theorem C6_heading_tree_witness:
  "extractHeadings ''# A\<newline>alpha\<newline>## B\<newline>beta\<newline># C\<newline>gamma'' \<noteq> []
   \<and> (\<exists>ol ds ss.
        extractHierarchy real_arith ''# A\<newline>alpha\<newline>## B\<newline>beta\<newline># C\<newline>gamma'' (Some accepting)
          no_hierarchy_options ((), [])
        = (Inr \<lparr> headings = [HeadingNode 1 ''A'' 0 20 [HeadingNode 2 ''B'' 10 20 []],
                               HeadingNode 1 ''C'' 20 29 []],
                   outline = ol, documentSummary = ds, sectionSummaries = ss,
                   strategy = Heading \<rparr>, ((), [])))
   \<and> tree_ok 29 (HeadingNode 1 ''A'' 0 20 [HeadingNode 2 ''B'' 10 20 []])
   \<and> tree_ok 29 (HeadingNode 1 ''C'' 20 29 [])
   \<and> disjoint_in_order [HeadingNode 1 ''A'' 0 20 [HeadingNode 2 ''B'' 10 20 []],
                         HeadingNode 1 ''C'' 20 29 []]"
proof -
  let ?T = "''# A\<newline>alpha\<newline>## B\<newline>beta\<newline># C\<newline>gamma''"
  let ?tree = "[HeadingNode 1 ''A'' 0 20 [HeadingNode 2 ''B'' 10 20 []], HeadingNode 1 ''C'' 20 29 []]"
  from extractHierarchy_heading [OF nested_headings, of real_arith "Some accepting"
         no_hierarchy_options "((), [])"]
  obtain ol ds ss where
    hier: "extractHierarchy real_arith ?T (Some accepting) no_hierarchy_options ((), [])
       = (Inr \<lparr> headings = ?tree, outline = ol, documentSummary = ds, sectionSummaries = ss,
                 strategy = Heading \<rparr>, ((), []))"
    unfolding nested_tree by blast
  from C6_heading_tree [OF nested_headings, of real_arith "Some accepting"
         no_hierarchy_options "((), [])"] hier
  have "(\<forall>n \<in> set ?tree. tree_ok (int (length ?T)) n) \<and> disjoint_in_order ?tree"
    by auto
  moreover have "int (length ?T) = 29" by simp
  ultimately have "tree_ok 29 (HeadingNode 1 ''A'' 0 20 [HeadingNode 2 ''B'' 10 20 []])"
    "tree_ok 29 (HeadingNode 1 ''C'' 20 29 [])" "disjoint_in_order ?tree"
    by (simp_all del: tree_ok.simps)
  with nested_headings hier show ?thesis by blast
qed


end
